theory Spec2Isabelle
  imports Complex_Main
begin

section \<open>Cells of a float64 column\<close>

text \<open>
  The score columns of \<^verbatim>\<open>analytics_engine.py\<close> are pandas float64 columns. A finite
  float is a real number; the three special values that the arithmetic of the source can
  produce are kept apart: plus and minus infinity are the constructors \<open>PInf\<close> and
  \<open>NInf\<close>, and NaN is \<open>None\<close>. The aggregates, the raw scores and the ranks are
  computed without rounding; the products and sums of the composite scores (lines 62 to
  68) are rounded to float64, see \<open>round64\<close> below.
\<close>

datatype ext = NInf | Fin real | PInf

instantiation ext :: linorder
begin

definition less_eq_ext :: "ext \<Rightarrow> ext \<Rightarrow> bool" where
  "less_eq_ext x y =
     (case x of
        NInf \<Rightarrow> True
      | Fin a \<Rightarrow> (case y of NInf \<Rightarrow> False | Fin b \<Rightarrow> a \<le> b | PInf \<Rightarrow> True)
      | PInf \<Rightarrow> (case y of PInf \<Rightarrow> True | _ \<Rightarrow> False))"

definition less_ext :: "ext \<Rightarrow> ext \<Rightarrow> bool" where
  "less_ext x y = (x \<le> y \<and> \<not> y \<le> (x::ext))"

instance
proof
  fix x y z :: ext
  show "(x < y) = (x \<le> y \<and> \<not> y \<le> x)"
    by (simp add: less_ext_def)
  show "x \<le> x"
    by (cases x) (simp_all add: less_eq_ext_def)
  show "x \<le> y \<Longrightarrow> y \<le> z \<Longrightarrow> x \<le> z"
    by (cases x; cases y; cases z) (simp_all add: less_eq_ext_def)
  show "x \<le> y \<Longrightarrow> y \<le> x \<Longrightarrow> x = y"
    by (cases x; cases y) (simp_all add: less_eq_ext_def)
  show "x \<le> y \<or> y \<le> x"
    by (cases x; cases y) (auto simp add: less_eq_ext_def)
qed

end

type_synonym fval = "ext option"

text \<open>
  Division of two float64 cells whose operands are finite, as numpy performs it for a
  pandas Series: no exception is raised, a zero divisor gives NaN for a zero dividend
  and a signed infinity otherwise. (The divisors of the source are areas and lengths
  computed by shapely, so a zero divisor is \<open>+0.0\<close>.)
\<close>

definition fdiv :: "real \<Rightarrow> real \<Rightarrow> fval" where
  "fdiv a b =
     (if b \<noteq> 0 then Some (Fin (a / b))
      else if a = 0 then None
      else if 0 < a then Some PInf
      else Some NInf)"

text \<open>
  Rounding to float64: round to nearest, ties to even, with a significand of 53 bits.
  \<open>exponent64 x\<close> is the binary exponent of \<open>x\<close>; the significand is scaled to an
  integer of 53 bits and rounded. Overflow and the subnormal range are not modelled (the
  composite scores are far from both).
\<close>

definition round_half_even :: "real \<Rightarrow> int" where
  "round_half_even y =
     (let f = \<lfloor>y\<rfloor>
      in if y - of_int f < 1 / 2 then f
         else if 1 / 2 < y - of_int f then f + 1
         else if even f then f else f + 1)"

definition exponent64 :: "real \<Rightarrow> int" where
  "exponent64 x = \<lfloor>log 2 \<bar>x\<bar>\<rfloor>"

definition round64 :: "real \<Rightarrow> real" where
  "round64 x =
     (if x = 0 then 0
      else of_int (round_half_even (x * 2 powr of_int (52 - exponent64 x)))
             * 2 powr of_int (exponent64 x - 52))"

text \<open>
  A float64 product of a literal \<open>w\<close> of the source with a cell, and a float64 sum of
  two cells; the cells are finite or NaN, and NaN propagates. The literal stands for the
  float nearest to it.
\<close>

definition fmul :: "real \<Rightarrow> real option \<Rightarrow> real option" where
  "fmul w a = (case a of None \<Rightarrow> None | Some x \<Rightarrow> Some (round64 (round64 w * x)))"

definition fadd :: "real option \<Rightarrow> real option \<Rightarrow> real option" where
  "fadd a b =
     (case a of
        None \<Rightarrow> None
      | Some x \<Rightarrow> (case b of None \<Rightarrow> None | Some y \<Rightarrow> Some (round64 (x + y))))"

section \<open>Frames\<close>

text \<open>
  A row of \<^verbatim>\<open>roads_gdf\<close> and a row of \<^verbatim>\<open>trees_gdf\<close>, with the columns the
  function reads. A road row carries its index label (labels are integers here); the
  function never looks at the index of the trees frame. Geometries are values of an
  abstract type \<open>'g\<close>. The reference system of a frame is \<open>Some c\<close> for a system \<open>c\<close>
  of an abstract type \<open>'c\<close>, or \<open>None\<close> when the frame has none. A frame is the list of
  its rows in row order.
\<close>

record 'g road =
  index_label :: int
  segment_id :: int
  geometry :: 'g

record 'g tree =
  canopy_dia_m :: real
  CO2_sequestered_kg :: real
  botanical_name :: string
  location :: 'g

record ('c, 'g) roads_frame =
  roads_crs :: "'c option"
  roads_rows :: "'g road list"

text \<open>
  The trees frame carries the column \<^verbatim>\<open>canopy_area_sq_m\<close> once line 35 has assigned it;
  \<open>None\<close> is a frame without that column.
\<close>

record ('c, 'g) trees_frame =
  trees_crs :: "'c option"
  trees_rows :: "'g tree list"
  trees_canopy_area_sq_m :: "real list option"

text \<open>
  A row of \<^verbatim>\<open>road_buffers\<close> (lines 30 to 32). The frame is a copy of two columns of
  \<^verbatim>\<open>roads_gdf\<close> and keeps its index.
\<close>

record 'g buffer_row =
  buffer_index_label :: int
  buffer_segment_id :: int
  buffer_geometry :: 'g
  buffer_area_sq_m :: real

text \<open>A row of \<^verbatim>\<open>joined_gdf\<close>: the tree's columns and the columns of the buffer it lies in.\<close>

record joined_row =
  joined_canopy_area_sq_m :: real
  joined_CO2_sequestered_kg :: real
  joined_botanical_name :: string
  joined_segment_id :: int

text \<open>
  A row of the returned frame \<^verbatim>\<open>roads_with_scores\<close>: the road's own columns, the three
  aggregates, the raw scores, the normalised scores and the two composite scores. Its
  index label is the one the merge of line 49 gives it.
\<close>

record 'g scored = "'g road" +
  canopy_area_sq_m :: real
  s_co2_total :: real
  s_bio_count :: real
  s_canopy :: fval
  s_co2 :: fval
  s_bio :: fval
  s_canopy_norm :: "real option"
  s_co2_norm :: "real option"
  s_bio_norm :: "real option"
  static_eqs :: "real option"
  serenity_score :: "real option"

text \<open>The exception that the libraries raise on the paths modelled here.\<close>

datatype error = ValueError

section \<open>The geometry library\<close>

text \<open>
  The operations of shapely, geopandas and pyproj that the function calls are not part
  of the repository; they are parameters of the model.
\<close>

record ('c, 'g) geolib =
  buffer :: "'g \<Rightarrow> int \<Rightarrow> 'g"
  area :: "'g \<Rightarrow> real"
  glength :: "'g \<Rightarrow> real"
  lies_within :: "'g \<Rightarrow> 'g \<Rightarrow> bool"
  transform :: "'c \<Rightarrow> 'c \<Rightarrow> 'g \<Rightarrow> 'g"

text \<open>
  \<^verbatim>\<open>trees_gdf.to_crs(crs)\<close> raises \<^verbatim>\<open>ValueError\<close> when the frame has no reference system
  or when \<open>crs\<close> is \<^verbatim>\<open>None\<close>. Otherwise it returns a new frame: every column is carried
  over, the geometries are transformed from the frame's system into \<open>crs\<close>, and the new
  frame is labelled with \<open>crs\<close>.
\<close>

definition to_crs ::
  "('c, 'g) geolib \<Rightarrow> ('c, 'g) trees_frame \<Rightarrow> 'c option \<Rightarrow> error + ('c, 'g) trees_frame" where
  "to_crs G trees crs =
     (case trees_crs trees of
        None \<Rightarrow> Inl ValueError
      | Some s \<Rightarrow>
          (case crs of
             None \<Rightarrow> Inl ValueError
           | Some c \<Rightarrow>
               Inr (trees\<lparr>trees_crs := Some c,
                          trees_rows := map (\<lambda>t. t\<lparr>location := transform G s c (location t)\<rparr>)
                                            (trees_rows trees)\<rparr>)))"

section \<open>The stages of calculate_environmental_scores\<close>

text \<open>Lines 30 to 32: one buffer row per road row, in row order, under the same index.\<close>

definition make_buffers :: "('c, 'g) geolib \<Rightarrow> 'g road list \<Rightarrow> int \<Rightarrow> 'g buffer_row list" where
  "make_buffers G roads d =
     map (\<lambda>r. \<lparr>buffer_index_label = index_label r,
               buffer_segment_id = segment_id r,
               buffer_geometry = buffer G (geometry r) d,
               buffer_area_sq_m = area G (buffer G (geometry r) d)\<rparr>) roads"

text \<open>Line 35: the canopy area of one tree.\<close>

definition canopy_area :: "'g tree \<Rightarrow> real" where
  "canopy_area t = pi * (canopy_dia_m t / 2) ^ 2"

text \<open>
  Line 38: the inner spatial join with predicate \<^verbatim>\<open>within\<close>. Every pair of a tree and a
  buffer such that the tree lies within the buffer gives one row.
\<close>

definition sjoin ::
  "('c, 'g) geolib \<Rightarrow> ('g tree \<times> real) list \<Rightarrow> 'g buffer_row list \<Rightarrow> joined_row list" where
  "sjoin G trees bufs =
     concat (map (\<lambda>(t, a).
       map (\<lambda>b. \<lparr>joined_canopy_area_sq_m = a,
                 joined_CO2_sequestered_kg = CO2_sequestered_kg t,
                 joined_botanical_name = botanical_name t,
                 joined_segment_id = buffer_segment_id b\<rparr>)
           (filter (\<lambda>b. lies_within G (location t) (buffer_geometry b)) bufs)) trees)"

text \<open>
  Lines 41 to 46: \<^verbatim>\<open>groupby('segment_id').agg(...)\<close>. One row per key that occurs in the
  joined frame, keys in ascending order; the canopy areas and the CO2 values of the group
  are summed, the distinct botanical names are counted.
\<close>

definition groupby_agg :: "joined_row list \<Rightarrow> (int \<times> real \<times> real \<times> nat) list" where
  "groupby_agg js =
     map (\<lambda>k. let grp = filter (\<lambda>j. joined_segment_id j = k) js
              in (k, sum_list (map joined_canopy_area_sq_m grp),
                     sum_list (map joined_CO2_sequestered_kg grp),
                     length (remdups (map joined_botanical_name grp))))
         (sort (remdups (map joined_segment_id js)))"

text \<open>
  Line 49, \<^verbatim>\<open>merge(..., on='segment_id', how='left')\<close>: every left row, in the order of the
  left frame, is paired with each right row of the same key, or once with missing values
  when no right row has its key.
\<close>

definition merge_left ::
  "'g road list \<Rightarrow> (int \<times> real \<times> real \<times> nat) list \<Rightarrow> ('g road \<times> (real \<times> real \<times> nat) option) list" where
  "merge_left roads eco =
     concat (map (\<lambda>r. case filter (\<lambda>e. fst e = segment_id r) eco of
                        [] \<Rightarrow> [(r, None)]
                      | ms \<Rightarrow> map (\<lambda>e. (r, Some (snd e))) ms) roads)"

text \<open>Line 49, \<^verbatim>\<open>fillna(0)\<close>: a missing aggregate becomes 0.\<close>

definition fillna0 :: "(real \<times> real \<times> nat) option \<Rightarrow> real \<times> real \<times> real" where
  "fillna0 m = (case m of None \<Rightarrow> (0, 0, 0) | Some (a, c, n) \<Rightarrow> (a, c, real n))"

text \<open>
  Line 52 divides a column of the merged frame by a column of \<^verbatim>\<open>road_buffers\<close> and
  assigns the quotient to the merged frame. The merged frame has the fresh index
  \<open>0, 1, 2, \<dots>\<close> of a merge; \<^verbatim>\<open>road_buffers\<close> has the index of the caller's roads frame.
  pandas aligns the two columns on their index labels: the row of the merged frame at
  position \<open>i\<close> is divided by the area of the buffer row labelled \<open>i\<close>, and gets NaN
  when no buffer row has that label. When the index of \<^verbatim>\<open>road_buffers\<close> has a label
  twice, the aligned quotient has it twice as well and the assignment raises
  \<^verbatim>\<open>ValueError\<close>. (Two equal indexes are divided by position; an index equal to
  \<open>0, 1, 2, \<dots>\<close> has no label twice, and the lookup by label is then the division by
  position.)
\<close>

definition align_div :: "real list \<Rightarrow> (int \<times> real) list \<Rightarrow> error + fval list" where
  "align_div xs labelled =
     (if \<not> distinct (map fst labelled) then Inl ValueError
      else Inr (map (\<lambda>(i, x). case map_of labelled (int i) of
                                 None \<Rightarrow> None
                               | Some y \<Rightarrow> fdiv x y)
                    (zip [0 ..< length xs] xs)))"

subsection \<open>Percentile rank\<close>

text \<open>
  Line 58, \<^verbatim>\<open>Series.rank(pct=True)\<close> with the defaults \<^verbatim>\<open>method='average'\<close>,
  \<^verbatim>\<open>na_option='keep'\<close>. The cells that are not NaN are sorted; a value's rank is the
  mean of the positions, counted from 1, that its tied group occupies in the sorted
  sequence; the rank is divided by the number of cells that are not NaN. A NaN cell
  keeps NaN.
\<close>

definition valid :: "fval list \<Rightarrow> ext list" where
  "valid xs = concat (map (\<lambda>c. case c of None \<Rightarrow> [] | Some x \<Rightarrow> [x]) xs)"

fun pos_sum :: "nat \<Rightarrow> 'a \<Rightarrow> 'a list \<Rightarrow> nat" where
  "pos_sum k x [] = 0"
| "pos_sum k x (y # ys) = (if y = x then k + 1 else 0) + pos_sum (k + 1) x ys"

definition avg_rank :: "'a::linorder list \<Rightarrow> 'a \<Rightarrow> real" where
  "avg_rank vs x = real (pos_sum 0 x (sort vs)) / real (count_list vs x)"

definition rank_pct :: "fval list \<Rightarrow> real option list" where
  "rank_pct xs =
     map (\<lambda>c. case c of
                None \<Rightarrow> None
              | Some x \<Rightarrow> Some (avg_rank (valid xs) x / real (length (valid xs)))) xs"

subsection \<open>The function\<close>

datatype notice = Performing int | CrsWarning

record ('c, 'g) outcome =
  printed :: "notice list"
  roads_after :: "('c, 'g) roads_frame"
  trees_after :: "('c, 'g) trees_frame"
  returned :: "'g scored list"

text \<open>
  What a call that raises leaves behind: the exception, what was printed before it, and
  the caller's trees frame at that moment (the roads frame is never assigned to).
\<close>

record ('c, 'g) raised =
  raised_exception :: error
  raised_printed :: "notice list"
  raised_trees :: "('c, 'g) trees_frame"

text \<open>
  Lines 51 to 70 build the score columns one after the other and return the frame; the
  model builds the columns as lists over the rows of the merged frame and assembles the
  rows at the end. \<open>assemble\<close> is everything but the division of line 52, whose result
  it takes as the column \<open>canopy_col\<close>.
\<close>

definition assemble ::
  "('c, 'g) geolib \<Rightarrow> fval list \<Rightarrow> ('g road \<times> real \<times> real \<times> real) list \<Rightarrow> 'g scored list" where
  "assemble G canopy_col merged =
     (let co2_col = map (\<lambda>(r, a, c, n). fdiv c (glength G (geometry r))) merged;
          bio_col = map (\<lambda>(r, a, c, n). Some (Fin (ln (1 + n)))) merged;
          canopy_norm = rank_pct canopy_col;
          co2_norm = rank_pct co2_col;
          bio_norm = rank_pct bio_col
      in map (\<lambda>i. case merged ! i of (r, a, c, n) \<Rightarrow>
               \<lparr>index_label = int i,
                segment_id = segment_id r,
                geometry = geometry r,
                canopy_area_sq_m = a,
                s_co2_total = c,
                s_bio_count = n,
                s_canopy = canopy_col ! i,
                s_co2 = co2_col ! i,
                s_bio = bio_col ! i,
                s_canopy_norm = canopy_norm ! i,
                s_co2_norm = co2_norm ! i,
                s_bio_norm = bio_norm ! i,
                static_eqs = fadd (fadd (fmul 0.5 (canopy_norm ! i)) (fmul 0.3 (co2_norm ! i)))
                                  (fmul 0.2 (bio_norm ! i)),
                serenity_score = fadd (fmul 0.7 (canopy_norm ! i)) (fmul 0.3 (bio_norm ! i))\<rparr>)
             [0 ..< length merged])"

definition score_rows ::
  "('c, 'g) geolib \<Rightarrow> 'g buffer_row list \<Rightarrow> ('g road \<times> real \<times> real \<times> real) list
     \<Rightarrow> error + 'g scored list" where
  "score_rows G road_buffers merged =
     (case align_div (map (\<lambda>(r, a, c, n). a) merged)
                     (map (\<lambda>b. (buffer_index_label b, buffer_area_sq_m b)) road_buffers) of
        Inl e \<Rightarrow> Inl e
      | Inr canopy_col \<Rightarrow> Inr (assemble G canopy_col merged))"

text \<open>
  The function itself. It prints, it rebinds its local name \<^verbatim>\<open>trees_gdf\<close> to a new frame
  when the reference systems differ, and line 35 assigns a column to the frame that this
  name refers to: the caller's frame when the systems agree, the reprojected copy
  otherwise. The body has no \<^verbatim>\<open>raise\<close> statement; the call raises what \<^verbatim>\<open>to_crs\<close>
  (line 27) or the assignment of line 52 raise. The outcome of a call that returns
  records what was printed, the caller's two frames after the call, and the returned
  frame. When \<^verbatim>\<open>to_crs\<close> raises, both lines have been printed and no frame has been
  touched; when line 52 raises, line 35 has already assigned its column.
\<close>

definition calculate_environmental_scores ::
  "('c, 'g) geolib \<Rightarrow> ('c, 'g) roads_frame \<Rightarrow> ('c, 'g) trees_frame \<Rightarrow> int
     \<Rightarrow> ('c, 'g) raised + ('c, 'g) outcome" where
  "calculate_environmental_scores G roads_gdf trees_gdf buffer_size_meters =
     (let mismatch = (roads_crs roads_gdf \<noteq> trees_crs trees_gdf);
          notices = Performing buffer_size_meters # (if mismatch then [CrsWarning] else [])
      in case (if mismatch then to_crs G trees_gdf (roads_crs roads_gdf) else Inr trees_gdf) of
           Inl e \<Rightarrow> Inl \<lparr>raised_exception = e, raised_printed = notices,
                          raised_trees = trees_gdf\<rparr>
         | Inr trees1 \<Rightarrow>
             (let road_buffers = make_buffers G (roads_rows roads_gdf) buffer_size_meters;
                  areas = map canopy_area (trees_rows trees1);
                  trees2 = trees1\<lparr>trees_canopy_area_sq_m := Some areas\<rparr>;
                  joined_gdf = sjoin G (zip (trees_rows trees2) areas) road_buffers;
                  eco_scores = groupby_agg joined_gdf;
                  merged = map (\<lambda>(r, m). (r, fillna0 m))
                               (merge_left (roads_rows roads_gdf) eco_scores)
              in case score_rows G road_buffers merged of
                   Inl e \<Rightarrow> Inl \<lparr>raised_exception = e, raised_printed = notices,
                                  raised_trees = (if mismatch then trees_gdf else trees2)\<rparr>
                 | Inr rows \<Rightarrow>
                     Inr \<lparr>printed = notices,
                          roads_after = roads_gdf,
                          trees_after = (if mismatch then trees_gdf else trees2),
                          returned = rows\<rparr>))"

section \<open>Notions used in the statements\<close>

text \<open>
  The frame that the local name \<^verbatim>\<open>trees_gdf\<close> refers to after lines 25 to 27: the
  reprojected copy when the reference systems differ, the caller's frame otherwise; or
  the error of \<^verbatim>\<open>to_crs\<close>.
\<close>

definition joined_trees ::
  "('c, 'g) geolib \<Rightarrow> ('c, 'g) roads_frame \<Rightarrow> ('c, 'g) trees_frame
     \<Rightarrow> error + ('c, 'g) trees_frame" where
  "joined_trees G roads_gdf trees_gdf =
     (if roads_crs roads_gdf \<noteq> trees_crs trees_gdf
      then to_crs G trees_gdf (roads_crs roads_gdf) else Inr trees_gdf)"

text \<open>
  The frame \<^verbatim>\<open>joined_gdf\<close> of line 38, for the trees frame \<open>T\<close> that is joined.
\<close>

definition joined_frame ::
  "('c, 'g) geolib \<Rightarrow> ('c, 'g) roads_frame \<Rightarrow> ('c, 'g) trees_frame \<Rightarrow> int \<Rightarrow> joined_row list" where
  "joined_frame G roads_gdf T d =
     sjoin G (zip (trees_rows T) (map canopy_area (trees_rows T)))
             (make_buffers G (roads_rows roads_gdf) d)"

text \<open>The merged frame of line 49, after \<^verbatim>\<open>fillna(0)\<close>, for the joined trees frame \<open>T\<close>.\<close>

definition merged_frame ::
  "('c, 'g) geolib \<Rightarrow> ('c, 'g) roads_frame \<Rightarrow> ('c, 'g) trees_frame \<Rightarrow> int
     \<Rightarrow> ('g road \<times> real \<times> real \<times> real) list" where
  "merged_frame G roads_gdf T d =
     map (\<lambda>(r, m). (r, fillna0 m))
         (merge_left (roads_rows roads_gdf) (groupby_agg (joined_frame G roads_gdf T d)))"

text \<open>The buffer areas under the index labels of \<^verbatim>\<open>road_buffers\<close>.\<close>

definition labelled_areas ::
  "('c, 'g) geolib \<Rightarrow> ('c, 'g) roads_frame \<Rightarrow> int \<Rightarrow> (int \<times> real) list" where
  "labelled_areas G roads_gdf d =
     map (\<lambda>b. (buffer_index_label b, buffer_area_sq_m b)) (make_buffers G (roads_rows roads_gdf) d)"

text \<open>
  The trees joined to the segment id \<open>k\<close>: every tree of \<open>T\<close>, once for each road row
  of id \<open>k\<close> whose buffer it lies within.
\<close>

definition trees_joined_to ::
  "('c, 'g) geolib \<Rightarrow> ('c, 'g) roads_frame \<Rightarrow> ('c, 'g) trees_frame \<Rightarrow> int \<Rightarrow> int \<Rightarrow> 'g tree list" where
  "trees_joined_to G roads_gdf T d k =
     concat (map (\<lambda>t. map (\<lambda>r. t)
                    (filter (\<lambda>r. segment_id r = k
                                  \<and> lies_within G (location t) (buffer G (geometry r) d))
                            (roads_rows roads_gdf)))
                 (trees_rows T))"

text \<open>The roads frame has the default index \<open>0, 1, 2, \<dots>\<close>.\<close>

definition default_index :: "('c, 'g) roads_frame \<Rightarrow> bool" where
  "default_index roads_gdf =
     (map index_label (roads_rows roads_gdf) = map int [0 ..< length (roads_rows roads_gdf)])"

text \<open>
  The two frames are in different reference systems and one of them has none: the case
  in which \<^verbatim>\<open>to_crs\<close> is called and raises.
\<close>

definition crs_unset_mismatch :: "('c, 'g) roads_frame \<Rightarrow> ('c, 'g) trees_frame \<Rightarrow> bool" where
  "crs_unset_mismatch roads_gdf trees_gdf =
     (roads_crs roads_gdf \<noteq> trees_crs trees_gdf
      \<and> (roads_crs roads_gdf = None \<or> trees_crs trees_gdf = None))"

text \<open>
  The average rank fraction of a value \<open>x\<close> among the values \<open>vs\<close>: the values below
  \<open>x\<close> are counted in full, and the tied group of \<open>x\<close>, which occupies the next
  \<open>count_list vs x\<close> ranks, contributes the mean of those ranks.
\<close>

definition rank_fraction :: "ext list \<Rightarrow> ext \<Rightarrow> real" where
  "rank_fraction vs x =
     (real (length (filter (\<lambda>y. y < x) vs)) + (real (count_list vs x) + 1) / 2)
       / real (length vs)"

text \<open>The three columns that the loop of lines 57 and 58 ranks, and what it writes.\<close>

datatype score_column = S_canopy | S_co2 | S_bio

fun raw :: "score_column \<Rightarrow> 'g scored \<Rightarrow> fval" where
  "raw S_canopy row = s_canopy row"
| "raw S_co2 row = s_co2 row"
| "raw S_bio row = s_bio row"

fun norm_of :: "score_column \<Rightarrow> 'g scored \<Rightarrow> real option" where
  "norm_of S_canopy row = s_canopy_norm row"
| "norm_of S_co2 row = s_co2_norm row"
| "norm_of S_bio row = s_bio_norm row"

section \<open>A planar instance of the geometry library and example frames\<close>

text \<open>
  Points, horizontal line segments \<open>HLine y x0 x1\<close> from \<open>(x0, y)\<close> to \<open>(x1, y)\<close>, the
  empty line string and buffers, with exact lengths and areas. A reference system is an
  integer offset added to the easting; transforming a point from one system to another
  shifts it by the difference of the offsets.
\<close>

datatype shape = EmptyLine | Point real real | HLine real real real | Buffer shape int

fun planar_length :: "shape \<Rightarrow> real" where
  "planar_length (HLine y x0 x1) = \<bar>x1 - x0\<bar>"
| "planar_length g = 0"

fun planar_area :: "shape \<Rightarrow> real" where
  "planar_area (Buffer (HLine y x0 x1) d) = 2 * real_of_int d * \<bar>x1 - x0\<bar> + pi * (real_of_int d) ^ 2"
| "planar_area (Buffer (Point x y) d) = pi * (real_of_int d) ^ 2"
| "planar_area g = 0"

fun planar_within :: "shape \<Rightarrow> shape \<Rightarrow> bool" where
  "planar_within (Point px py) (Buffer (HLine y x0 x1) d) =
     (0 < d \<and>
      (px - max (min x0 x1) (min (max x0 x1) px)) ^ 2 + (py - y) ^ 2 < (real_of_int d) ^ 2)"
| "planar_within p g = False"

fun planar_transform :: "int \<Rightarrow> int \<Rightarrow> shape \<Rightarrow> shape" where
  "planar_transform c c' (Point x y) = Point (x + real_of_int (c' - c)) y"
| "planar_transform c c' g = g"

definition planar :: "(int, shape) geolib" where
  "planar = \<lparr>buffer = Buffer, area = planar_area, glength = planar_length,
             lies_within = planar_within, transform = planar_transform\<rparr>"

text \<open>The frames of the example at the end of \<^verbatim>\<open>analytics_engine.py\<close>.\<close>

definition example_roads :: "(int, shape) roads_frame" where
  "example_roads =
     \<lparr>roads_crs = Some 32643,
      roads_rows = [\<lparr>index_label = 0, segment_id = 1, geometry = HLine 0 0 100\<rparr>,
                    \<lparr>index_label = 1, segment_id = 2, geometry = HLine 50 0 100\<rparr>]\<rparr>"

definition example_tree_rows :: "shape tree list" where
  "example_tree_rows =
     [\<lparr>canopy_dia_m = 10, CO2_sequestered_kg = 50,
       botanical_name = ''Ficus religiosa'', location = Point 25 2\<rparr>,
      \<lparr>canopy_dia_m = 8, CO2_sequestered_kg = 30,
       botanical_name = ''Azadirachta indica'', location = Point 75 (- 1)\<rparr>,
      \<lparr>canopy_dia_m = 12, CO2_sequestered_kg = 70,
       botanical_name = ''Ficus religiosa'', location = Point 25 48\<rparr>,
      \<lparr>canopy_dia_m = 5, CO2_sequestered_kg = 15,
       botanical_name = ''Peltophorum pterocarpum'', location = Point 75 51\<rparr>]"

definition example_trees :: "(int, shape) trees_frame" where
  "example_trees =
     \<lparr>trees_crs = Some 32643, trees_rows = example_tree_rows, trees_canopy_area_sq_m = None\<rparr>"

text \<open>The first two trees only: no tree is near the second segment.\<close>

definition sparse_trees :: "(int, shape) trees_frame" where
  "sparse_trees =
     \<lparr>trees_crs = Some 32643, trees_rows = take 2 example_tree_rows,
      trees_canopy_area_sq_m = None\<rparr>"

text \<open>The example trees in a reference system whose eastings are larger by 1000.\<close>

definition shifted_trees :: "(int, shape) trees_frame" where
  "shifted_trees =
     \<lparr>trees_crs = Some 33643,
      trees_rows = map (\<lambda>t. t\<lparr>location := planar_transform 32643 33643 (location t)\<rparr>)
                       example_tree_rows,
      trees_canopy_area_sq_m = None\<rparr>"

text \<open>The example roads under the index \<open>10, 20\<close>, as after a selection of rows.\<close>

definition relabelled_roads :: "(int, shape) roads_frame" where
  "relabelled_roads =
     \<lparr>roads_crs = Some 32643,
      roads_rows = [\<lparr>index_label = 10, segment_id = 1, geometry = HLine 0 0 100\<rparr>,
                    \<lparr>index_label = 20, segment_id = 2, geometry = HLine 50 0 100\<rparr>]\<rparr>"

text \<open>A roads frame whose second segment is an empty line string.\<close>

definition degenerate_roads :: "(int, shape) roads_frame" where
  "degenerate_roads =
     \<lparr>roads_crs = Some 32643,
      roads_rows = [\<lparr>index_label = 0, segment_id = 1, geometry = HLine 0 0 100\<rparr>,
                    \<lparr>index_label = 1, segment_id = 2, geometry = EmptyLine\<rparr>]\<rparr>"

text \<open>
  A roads frame whose second segment has length zero: a line string from \<open>(30, 50)\<close> to
  \<open>(30, 50)\<close>. The third example tree lies within its buffer.
\<close>

definition pointlike_roads :: "(int, shape) roads_frame" where
  "pointlike_roads =
     \<lparr>roads_crs = Some 32643,
      roads_rows = [\<lparr>index_label = 0, segment_id = 1, geometry = HLine 0 0 100\<rparr>,
                    \<lparr>index_label = 1, segment_id = 2, geometry = HLine 50 30 30\<rparr>]\<rparr>"

text \<open>
  A roads frame with the segment id 1 twice, the second time on an empty line string.
\<close>

definition repeated_roads :: "(int, shape) roads_frame" where
  "repeated_roads =
     \<lparr>roads_crs = Some 32643,
      roads_rows = [\<lparr>index_label = 0, segment_id = 1, geometry = HLine 0 0 100\<rparr>,
                    \<lparr>index_label = 1, segment_id = 1, geometry = EmptyLine\<rparr>]\<rparr>"

text \<open>The example trees in a frame without a reference system.\<close>

definition unreferenced_trees :: "(int, shape) trees_frame" where
  "unreferenced_trees =
     \<lparr>trees_crs = None, trees_rows = example_tree_rows, trees_canopy_area_sq_m = None\<rparr>"

text \<open>A trees frame with one tree, of canopy diameter \<open>-10\<close>, next to the first segment.\<close>

definition negative_trees :: "(int, shape) trees_frame" where
  "negative_trees =
     \<lparr>trees_crs = Some 32643,
      trees_rows = [\<lparr>canopy_dia_m = - 10, CO2_sequestered_kg = 50,
                     botanical_name = ''Ficus religiosa'', location = Point 25 2\<rparr>],
      trees_canopy_area_sq_m = None\<rparr>"

section \<open>Auxiliary facts\<close>

subsection \<open>Rounding to float64\<close>

lemma round_half_even_bounds:
  "\<lfloor>y\<rfloor> \<le> round_half_even y" "round_half_even y \<le> \<lfloor>y\<rfloor> + 1"
  by (simp_all add: round_half_even_def Let_def)

lemma round_half_even_close: "\<bar>of_int (round_half_even y) - y\<bar> \<le> 1 / 2"
proof -
  have "of_int \<lfloor>y\<rfloor> \<le> y" "y < of_int \<lfloor>y\<rfloor> + 1"
    by linarith+
  then show ?thesis
    by (auto simp add: round_half_even_def Let_def)
qed

lemma round_half_even_of_int: "round_half_even (of_int k) = k"
  by (simp add: round_half_even_def Let_def)

lemma round_half_even_mono:
  assumes "y \<le> z"
  shows "round_half_even y \<le> round_half_even z"
proof (cases "\<lfloor>y\<rfloor> = \<lfloor>z\<rfloor>")
  case True
  with assms have "y - of_int \<lfloor>y\<rfloor> \<le> z - of_int \<lfloor>z\<rfloor>"
    by simp
  with True show ?thesis
    by (auto simp add: round_half_even_def Let_def)
next
  case False
  with assms have "\<lfloor>y\<rfloor> + 1 \<le> \<lfloor>z\<rfloor>"
    using floor_mono [of y z] by linarith
  with round_half_even_bounds(2) [of y] round_half_even_bounds(1) [of z]
  show ?thesis by linarith
qed

lemma exponent64_bounds:
  assumes "0 < x"
  shows "(2::real) powr of_int (exponent64 x) \<le> x" and "x < (2::real) powr of_int (exponent64 x + 1)"
proof -
  have "of_int (exponent64 x) \<le> log 2 x"
    using assms by (simp add: exponent64_def)
  then have "(2::real) powr of_int (exponent64 x) \<le> 2 powr log 2 x"
    by simp
  with assms show "(2::real) powr of_int (exponent64 x) \<le> x"
    by simp
  have "log 2 x < of_int (exponent64 x + 1)"
    using assms by (simp add: exponent64_def)
  then have "2 powr log 2 x < (2::real) powr of_int (exponent64 x + 1)"
    by simp
  with assms show "x < (2::real) powr of_int (exponent64 x + 1)"
    by simp
qed

lemma exponent64_eq:
  assumes "(2::real) powr of_int k \<le> x" and "x < (2::real) powr of_int (k + 1)"
  shows "exponent64 x = k"
proof -
  have pos: "0 < x"
    using assms(1) powr_gt_zero [of 2 "of_int k"] by linarith
  from assms(1) pos have "of_int k \<le> log 2 x"
    by (simp add: le_log_iff)
  moreover from assms(2) pos have "log 2 x < of_int k + 1"
    by (simp add: log_less_iff)
  ultimately have "\<lfloor>log 2 x\<rfloor> = k"
    by (rule floor_unique)
  with pos show ?thesis
    by (simp add: exponent64_def)
qed

lemma two_powr_split: "(2::real) powr of_int (a + b) = (2::real) powr of_int a * (2::real) powr of_int b"
  by (simp add: powr_add)

lemma round64_pos_unfold:
  assumes "0 < x"
  shows "round64 x =
    of_int (round_half_even (x * (2::real) powr of_int (52 - exponent64 x))) * (2::real) powr of_int (exponent64 x - 52)"
  using assms by (simp add: round64_def)

lemma significand_bounds:
  assumes "0 < x"
  shows "2 ^ 52 \<le> x * (2::real) powr of_int (52 - exponent64 x)"
    and "x * (2::real) powr of_int (52 - exponent64 x) \<le> 2 ^ 53"
proof -
  let ?e = "exponent64 x"
  have s: "0 < (2::real) powr of_int (52 - ?e)"
    by simp
  have "(2::real) powr of_int ?e * (2::real) powr of_int (52 - ?e) = (2::real) powr of_int (?e + (52 - ?e))"
    by (simp only: two_powr_split)
  also have "\<dots> = (2::real) ^ 52"
    by simp
  finally have lo: "(2::real) powr of_int ?e * (2::real) powr of_int (52 - ?e) = 2 ^ 52" .
  have "(2::real) powr of_int (?e + 1) * (2::real) powr of_int (52 - ?e) = (2::real) powr of_int ((?e + 1) + (52 - ?e))"
    by (simp only: two_powr_split)
  also have "\<dots> = (2::real) ^ 53"
    by simp
  finally have hi: "(2::real) powr of_int (?e + 1) * (2::real) powr of_int (52 - ?e) = 2 ^ 53" .
  from exponent64_bounds(1) [OF assms] s
  have "(2::real) powr of_int ?e * (2::real) powr of_int (52 - ?e) \<le> x * (2::real) powr of_int (52 - ?e)"
    by (simp only: mult_le_cancel_right_pos)
  with lo show "2 ^ 52 \<le> x * (2::real) powr of_int (52 - ?e)"
    by simp
  from exponent64_bounds(2) [OF assms] s
  have "x * (2::real) powr of_int (52 - ?e) < (2::real) powr of_int (?e + 1) * (2::real) powr of_int (52 - ?e)"
    by (simp only: mult_less_cancel_right_pos)
  with hi show "x * (2::real) powr of_int (52 - ?e) \<le> 2 ^ 53"
    by simp
qed

lemma scale_inverse: "(2::real) powr of_int (52 - e) * (2::real) powr of_int (e - 52) = 1"
proof -
  have "(2::real) powr of_int (52 - e) * (2::real) powr of_int (e - 52) =
      (2::real) powr of_int ((52 - e) + (e - 52))"
    by (simp only: two_powr_split)
  then show ?thesis by simp
qed

lemma scale_down: "(2::real) powr of_int (e - 52) = (2::real) powr of_int e / 2 ^ 52"
proof -
  have "(2::real) powr of_int e = (2::real) powr of_int ((e - 52) + 52)"
    by simp
  also have "\<dots> = (2::real) powr of_int (e - 52) * (2::real) powr of_int 52"
    by (simp only: two_powr_split)
  also have "(2::real) powr of_int 52 = 2 ^ 52"
    by simp
  finally show ?thesis by simp
qed

lemma round64_error:
  assumes "0 < x"
  shows "\<bar>round64 x - x\<bar> \<le> x / 2 ^ 53"
proof -
  define e where "e = exponent64 x"
  define s where "s = (2::real) powr of_int (52 - e)"
  define t where "t = (2::real) powr of_int (e - 52)"
  define m where "m = x * s"
  have t: "0 < t" by (simp add: t_def)
  have st: "s * t = 1" unfolding s_def t_def by (rule scale_inverse)
  have x: "x = m * t"
    using st by (simp add: m_def mult.assoc)
  have r: "round64 x = of_int (round_half_even m) * t"
    using assms by (simp add: round64_def e_def s_def t_def m_def)
  have "round64 x - x = (of_int (round_half_even m) - m) * t"
    by (subst x, subst r) (simp add: algebra_simps)
  then have "\<bar>round64 x - x\<bar> = \<bar>of_int (round_half_even m) - m\<bar> * t"
    using t by (simp add: abs_mult)
  also have "\<dots> \<le> (1 / 2) * t"
    using round_half_even_close [of m] t by (simp only: mult_le_cancel_right_pos)
  finally have half: "\<bar>round64 x - x\<bar> \<le> (1 / 2) * t" .
  have "t = (2::real) powr of_int e / 2 ^ 52"
    unfolding t_def by (rule scale_down)
  also have "\<dots> \<le> x / 2 ^ 52"
    using exponent64_bounds(1) [OF assms] unfolding e_def by (rule divide_right_mono) simp
  finally have "t \<le> x / 2 ^ 52" .
  with half show ?thesis
    by simp
qed

lemma round64_bounds:
  assumes "0 < x"
  shows "(2::real) powr of_int (exponent64 x) \<le> round64 x"
    and "round64 x \<le> (2::real) powr of_int (exponent64 x + 1)"
proof -
  define e where "e = exponent64 x"
  define t where "t = (2::real) powr of_int (e - 52)"
  define m where "m = x * (2::real) powr of_int (52 - e)"
  have t: "0 < t" by (simp add: t_def)
  have r: "round64 x = of_int (round_half_even m) * t"
    using assms by (simp add: round64_def e_def t_def m_def)
  have lo: "(2::real) ^ 52 \<le> m" and hi: "m \<le> (2::real) ^ 53"
    using significand_bounds [OF assms] by (simp_all add: m_def e_def)
  have "round_half_even (of_int (2 ^ 52)) \<le> round_half_even m"
    using lo by (intro round_half_even_mono) simp
  then have "(2::int) ^ 52 \<le> round_half_even m"
    by (simp only: round_half_even_of_int)
  then have "(2::real) ^ 52 \<le> of_int (round_half_even m)"
    by (metis of_int_le_iff of_int_numeral of_int_power)
  then have "(2::real) ^ 52 * t \<le> of_int (round_half_even m) * t"
    using t by (simp only: mult_le_cancel_right_pos)
  moreover have "(2::real) ^ 52 * t = (2::real) powr of_int e"
    unfolding t_def scale_down by simp
  ultimately show "(2::real) powr of_int (exponent64 x) \<le> round64 x"
    by (simp add: r e_def)
  have "round_half_even m \<le> round_half_even (of_int (2 ^ 53))"
    using hi by (intro round_half_even_mono) simp
  then have "round_half_even m \<le> (2::int) ^ 53"
    by (simp only: round_half_even_of_int)
  then have "of_int (round_half_even m) \<le> (2::real) ^ 53"
    by (metis of_int_le_iff of_int_numeral of_int_power)
  then have "of_int (round_half_even m) * t \<le> (2::real) ^ 53 * t"
    using t by (simp only: mult_le_cancel_right_pos)
  moreover have "(2::real) ^ 53 * t = (2::real) powr of_int (e + 1)"
  proof -
    have "(2::real) powr of_int (e + 1) = (2::real) powr of_int e * (2::real) powr of_int 1"
      by (simp only: two_powr_split)
    then show ?thesis
      unfolding t_def scale_down by simp
  qed
  ultimately show "round64 x \<le> (2::real) powr of_int (exponent64 x + 1)"
    by (simp add: r e_def)
qed

lemma round64_pos: "0 < x \<Longrightarrow> 0 < round64 x"
  using round64_bounds(1) [of x] powr_gt_zero [of 2 "of_int (exponent64 x)"] by linarith

lemma exponent64_mono:
  assumes "0 < x" and "x \<le> y"
  shows "exponent64 x \<le> exponent64 y"
proof -
  from assms have "log 2 x \<le> log 2 y"
    by simp
  then have "\<lfloor>log 2 x\<rfloor> \<le> \<lfloor>log 2 y\<rfloor>"
    by (rule floor_mono)
  with assms show ?thesis
    by (simp add: exponent64_def)
qed

lemma round64_mono:
  assumes "0 < x" and "x \<le> y"
  shows "round64 x \<le> round64 y"
proof (cases "exponent64 x = exponent64 y")
  case True
  define e where "e = exponent64 y"
  define s where "s = (2::real) powr of_int (52 - e)"
  define t where "t = (2::real) powr of_int (e - 52)"
  have s: "0 < s" and t: "0 < t"
    by (simp_all add: s_def t_def)
  from assms have y: "0 < y" by simp
  have rx: "round64 x = of_int (round_half_even (x * s)) * t"
    using assms(1) True by (simp add: round64_def e_def s_def t_def)
  have ry: "round64 y = of_int (round_half_even (y * s)) * t"
    using y by (simp add: round64_def e_def s_def t_def)
  from assms(2) s have "x * s \<le> y * s"
    by (simp only: mult_le_cancel_right_pos)
  then have "round_half_even (x * s) \<le> round_half_even (y * s)"
    by (rule round_half_even_mono)
  then have "(of_int (round_half_even (x * s)) :: real) \<le> of_int (round_half_even (y * s))"
    by simp
  with t show ?thesis
    by (simp only: rx ry mult_le_cancel_right_pos)
next
  case False
  from assms have y: "0 < y" by simp
  from False exponent64_mono [OF assms] have "exponent64 x + 1 \<le> exponent64 y"
    by simp
  then have "(2::real) powr of_int (exponent64 x + 1) \<le> (2::real) powr of_int (exponent64 y)"
    by simp
  with round64_bounds(2) [OF assms(1)] round64_bounds(1) [OF y]
  show ?thesis by linarith
qed

lemma round64_eval:
  assumes "(2::real) powr of_int k \<le> x" and "x < (2::real) powr of_int (k + 1)"
  shows "round64 x =
    of_int (round_half_even (x * (2::real) powr of_int (52 - k))) * (2::real) powr of_int (k - 52)"
proof -
  have pos: "0 < x"
    using assms(1) powr_gt_zero [of 2 "of_int k"] by linarith
  from assms have "exponent64 x = k"
    by (rule exponent64_eq)
  with pos show ?thesis
    by (simp add: round64_def)
qed

subsection \<open>The weights of the composite scores\<close>

lemma round64_half: "round64 (1 / 2) = 1 / 2"
  using round64_eval [of "- 1" "1 / 2"] by (simp add: round_half_even_def powr_neg_numeral)

lemma round64_three_tenths: "round64 (3 / 10) = 5404319552844595 / 2 ^ 54"
  using round64_eval [of "- 2" "3 / 10"] by (simp add: round_half_even_def powr_neg_numeral)

lemma round64_fifth: "round64 (1 / 5) = 3602879701896397 / 2 ^ 54"
  using round64_eval [of "- 3" "1 / 5"] by (simp add: round_half_even_def powr_neg_numeral)

lemma round64_seven_tenths: "round64 (7 / 10) = 6305039478318694 / 2 ^ 53"
  using round64_eval [of "- 1" "7 / 10"] by (simp add: round_half_even_def powr_neg_numeral)

lemma round64_fixed:
  "round64 (5404319552844595 / 2 ^ 54) = 5404319552844595 / 2 ^ 54"
  "round64 (3602879701896397 / 2 ^ 54) = 3602879701896397 / 2 ^ 54"
  "round64 (6305039478318694 / 2 ^ 53) = 6305039478318694 / 2 ^ 53"
  using round64_eval [of "- 2" "5404319552844595 / 2 ^ 54"]
    round64_eval [of "- 3" "3602879701896397 / 2 ^ 54"]
    round64_eval [of "- 1" "6305039478318694 / 2 ^ 53"]
  by (simp_all add: round_half_even_def powr_neg_numeral)

lemma round64_sum_half_three_tenths:
  "round64 (1 / 2 + 5404319552844595 / 2 ^ 54) = 7205759403792794 / 2 ^ 53"
  using round64_eval [of "- 1" "1 / 2 + 5404319552844595 / 2 ^ 54"]
  by (simp add: round_half_even_def powr_neg_numeral)

lemma round64_sum_to_one:
  "round64 (7205759403792794 / 2 ^ 53 + 3602879701896397 / 2 ^ 54) = 1"
  using round64_eval [of 0 "7205759403792794 / 2 ^ 53 + 3602879701896397 / 2 ^ 54"]
  by (simp add: round_half_even_def powr_neg_numeral)

lemma round64_sum_seven_three:
  "round64 (6305039478318694 / 2 ^ 53 + 5404319552844595 / 2 ^ 54) = 1"
  using round64_eval [of "- 1" "6305039478318694 / 2 ^ 53 + 5404319552844595 / 2 ^ 54"]
  by (simp add: round_half_even_def powr_neg_numeral)

lemma round64_small_error:
  assumes "0 < x" and "x \<le> 2"
  shows "\<bar>round64 x - x\<bar> \<le> 1 / 2 ^ 52"
proof -
  from assms(2) have "x / 2 ^ 53 \<le> 2 / 2 ^ 53"
    by (rule divide_right_mono) simp
  with round64_error [OF assms(1)] show ?thesis
    by simp
qed

lemma weighted_cell:
  assumes w: "0 < w" "w \<le> 1" and rw: "round64 w \<le> 1" and x: "0 < x" "x \<le> 1"
  shows "0 < round64 (round64 w * x)"
    and "round64 (round64 w * x) \<le> round64 (round64 w)"
    and "\<bar>round64 (round64 w * x) - w * x\<bar> \<le> 2 / 2 ^ 52"
proof -
  have rpos: "0 < round64 w"
    using w(1) by (rule round64_pos)
  with x have prod: "0 < round64 w * x"
    by simp
  then show "0 < round64 (round64 w * x)"
    by (rule round64_pos)
  from rpos x(2) have le: "round64 w * x \<le> round64 w"
    by (simp add: mult_le_cancel_left1)
  with prod show "round64 (round64 w * x) \<le> round64 (round64 w)"
    by (rule round64_mono)
  from le rw have "round64 w * x \<le> 2"
    by linarith
  with prod have e1: "\<bar>round64 (round64 w * x) - round64 w * x\<bar> \<le> 1 / 2 ^ 52"
    by (rule round64_small_error)
  from w have "\<bar>round64 w - w\<bar> \<le> 1 / 2 ^ 52"
    by (intro round64_small_error) simp_all
  moreover have "\<bar>(round64 w - w) * x\<bar> \<le> \<bar>round64 w - w\<bar>"
    using x by (simp add: abs_mult mult_left_le)
  ultimately have e2: "\<bar>round64 w * x - w * x\<bar> \<le> 1 / 2 ^ 52"
    by (simp add: algebra_simps)
  from e1 e2 show "\<bar>round64 (round64 w * x) - w * x\<bar> \<le> 2 / 2 ^ 52"
    by linarith
qed

lemma weight_values:
  "round64 (round64 (1 / 2)) = 1 / 2"
  "round64 (round64 (3 / 10)) = 5404319552844595 / 2 ^ 54"
  "round64 (round64 (1 / 5)) = 3602879701896397 / 2 ^ 54"
  "round64 (round64 (7 / 10)) = 6305039478318694 / 2 ^ 53"
  by (simp_all only: round64_half round64_three_tenths round64_fifth round64_seven_tenths
        round64_fixed)

lemma weights_le_one:
  "round64 (1 / 2) \<le> 1" "round64 (3 / 10) \<le> 1" "round64 (1 / 5) \<le> 1" "round64 (7 / 10) \<le> 1"
  by (simp_all add: round64_half round64_three_tenths round64_fifth round64_seven_tenths)

lemma weights_in_range:
  "(0::real) < 1 / 2" "(1 / 2 :: real) \<le> 1" "(0::real) < 3 / 10" "(3 / 10 :: real) \<le> 1"
  "(0::real) < 1 / 5" "(1 / 5 :: real) \<le> 1" "(0::real) < 7 / 10" "(7 / 10 :: real) \<le> 1"
  by simp_all

lemma static_eqs_value:
  assumes a: "0 < a" "a \<le> 1" and b: "0 < b" "b \<le> 1" and c: "0 < c" "c \<le> 1"
  shows "\<exists>v. fadd (fadd (fmul 0.5 (Some a)) (fmul 0.3 (Some b))) (fmul 0.2 (Some c)) = Some v
           \<and> \<bar>v - (0.5 * a + 0.3 * b + 0.2 * c)\<bar> \<le> 1 / 10 ^ 9 \<and> 0 < v \<and> v \<le> 1"
proof -
  define p5 where "p5 = round64 (round64 (1 / 2) * a)"
  define p3 where "p3 = round64 (round64 (3 / 10) * b)"
  define p2 where "p2 = round64 (round64 (1 / 5) * c)"
  define s where "s = round64 (p5 + p3)"
  define v where "v = round64 (s + p2)"
  have result: "fadd (fadd (fmul 0.5 (Some a)) (fmul 0.3 (Some b))) (fmul 0.2 (Some c)) = Some v"
    by (simp add: fadd_def fmul_def v_def s_def p5_def p3_def p2_def)
  note c5 = weighted_cell [OF weights_in_range(1,2) weights_le_one(1) a]
  note c3 = weighted_cell [OF weights_in_range(3,4) weights_le_one(2) b]
  note c2 = weighted_cell [OF weights_in_range(5,6) weights_le_one(3) c]
  have p5: "0 < p5" "p5 \<le> 1 / 2" "\<bar>p5 - 1 / 2 * a\<bar> \<le> 2 / 2 ^ 52"
    using c5 unfolding p5_def weight_values by this+
  have p3: "0 < p3" "p3 \<le> 5404319552844595 / 2 ^ 54" "\<bar>p3 - 3 / 10 * b\<bar> \<le> 2 / 2 ^ 52"
    using c3 unfolding p3_def weight_values by this+
  have p2: "0 < p2" "p2 \<le> 3602879701896397 / 2 ^ 54" "\<bar>p2 - 1 / 5 * c\<bar> \<le> 2 / 2 ^ 52"
    using c2 unfolding p2_def weight_values by this+
  have sum1: "0 < p5 + p3" "p5 + p3 \<le> 1 / 2 + 5404319552844595 / 2 ^ 54"
    using p5(1,2) p3(1,2) by linarith+
  have s: "0 < s" "s \<le> 7205759403792794 / 2 ^ 53"
    using round64_pos [OF sum1(1)] round64_mono [OF sum1]
    unfolding s_def round64_sum_half_three_tenths by this+
  have "p5 + p3 \<le> 2"
    using sum1(2) by simp
  with sum1(1) have es: "\<bar>s - (p5 + p3)\<bar> \<le> 1 / 2 ^ 52"
    unfolding s_def by (rule round64_small_error)
  have sum2: "0 < s + p2" "s + p2 \<le> 7205759403792794 / 2 ^ 53 + 3602879701896397 / 2 ^ 54"
    using s p2(1,2) by linarith+
  have v: "0 < v" "v \<le> 1"
    using round64_pos [OF sum2(1)] round64_mono [OF sum2]
    unfolding v_def round64_sum_to_one by this+
  have "s + p2 \<le> 2"
    using sum2(2) by simp
  with sum2(1) have ev: "\<bar>v - (s + p2)\<bar> \<le> 1 / 2 ^ 52"
    unfolding v_def by (rule round64_small_error)
  have "\<bar>v - (1 / 2 * a + 3 / 10 * b + 1 / 5 * c)\<bar> \<le> 8 / 2 ^ 52"
    using ev es p5(3) p3(3) p2(3) by linarith
  then have "\<bar>v - (0.5 * a + 0.3 * b + 0.2 * c)\<bar> \<le> 1 / 10 ^ 9"
    by simp
  with result v show ?thesis
    by (intro exI conjI)
qed

lemma serenity_value:
  assumes a: "0 < a" "a \<le> 1" and c: "0 < c" "c \<le> 1"
  shows "\<exists>v. fadd (fmul 0.7 (Some a)) (fmul 0.3 (Some c)) = Some v
           \<and> \<bar>v - (0.7 * a + 0.3 * c)\<bar> \<le> 1 / 10 ^ 9 \<and> 0 < v \<and> v \<le> 1"
proof -
  define p7 where "p7 = round64 (round64 (7 / 10) * a)"
  define p3 where "p3 = round64 (round64 (3 / 10) * c)"
  define v where "v = round64 (p7 + p3)"
  have result: "fadd (fmul 0.7 (Some a)) (fmul 0.3 (Some c)) = Some v"
    by (simp add: fadd_def fmul_def v_def p7_def p3_def)
  note c7 = weighted_cell [OF weights_in_range(7,8) weights_le_one(4) a]
  note c3 = weighted_cell [OF weights_in_range(3,4) weights_le_one(2) c]
  have p7: "0 < p7" "p7 \<le> 6305039478318694 / 2 ^ 53" "\<bar>p7 - 7 / 10 * a\<bar> \<le> 2 / 2 ^ 52"
    using c7 unfolding p7_def weight_values by this+
  have p3: "0 < p3" "p3 \<le> 5404319552844595 / 2 ^ 54" "\<bar>p3 - 3 / 10 * c\<bar> \<le> 2 / 2 ^ 52"
    using c3 unfolding p3_def weight_values by this+
  have sum: "0 < p7 + p3" "p7 + p3 \<le> 6305039478318694 / 2 ^ 53 + 5404319552844595 / 2 ^ 54"
    using p7(1,2) p3(1,2) by linarith+
  have v: "0 < v" "v \<le> 1"
    using round64_pos [OF sum(1)] round64_mono [OF sum]
    unfolding v_def round64_sum_seven_three by this+
  have "p7 + p3 \<le> 2"
    using sum(2) by simp
  with sum(1) have ev: "\<bar>v - (p7 + p3)\<bar> \<le> 1 / 2 ^ 52"
    unfolding v_def by (rule round64_small_error)
  have "\<bar>v - (7 / 10 * a + 3 / 10 * c)\<bar> \<le> 5 / 2 ^ 52"
    using ev p7(3) p3(3) by linarith
  then have "\<bar>v - (0.7 * a + 0.3 * c)\<bar> \<le> 1 / 10 ^ 9"
    by simp
  with result v show ?thesis
    by (intro exI conjI)
qed

subsection \<open>Grouping and merging\<close>

lemma groupby_agg_keys: "map fst (groupby_agg js) = sort (remdups (map joined_segment_id js))"
  by (simp add: groupby_agg_def Let_def comp_def)

lemma groupby_agg_distinct: "distinct (map fst (groupby_agg js))"
  by (simp add: groupby_agg_keys)

lemma filter_key_distinct:
  "distinct (map fst eco) \<Longrightarrow>
   filter (\<lambda>e. fst e = k) eco = (case map_of eco k of None \<Rightarrow> [] | Some v \<Rightarrow> [(k, v)])"
proof (induction eco)
  case Nil
  then show ?case by simp
next
  case (Cons e eco)
  obtain k' v' where e: "e = (k', v')" by (cases e)
  show ?case
  proof (cases "k' = k")
    case True
    with Cons.prems e have "k \<notin> fst ` set eco" by simp
    then have "filter (\<lambda>e. fst e = k) eco = []"
      by (auto simp add: filter_empty_conv)
    with True e show ?thesis by simp
  next
    case False
    with Cons e show ?thesis by simp
  qed
qed

lemma merge_left_distinct:
  "distinct (map fst eco) \<Longrightarrow>
   merge_left roads eco = map (\<lambda>r. (r, map_of eco (segment_id r))) roads"
  by (induction roads) (simp_all add: merge_left_def filter_key_distinct split: option.split)

lemma length_rank_pct: "length (rank_pct xs) = length xs"
  by (simp add: rank_pct_def)

subsection \<open>Ranks\<close>

lemma count_list_sort: "count_list (sort vs) x = count_list vs (x::'a::linorder)"
  by (simp add: count_list_eq_length_filter filter_sort)

lemma length_less_sort:
  "length (filter (\<lambda>y. y < x) (sort vs)) = length (filter (\<lambda>y. y < (x::'a::linorder)) vs)"
  by (simp add: filter_sort)

lemma count_list_0_iff_notin: "x \<notin> set ys \<Longrightarrow> count_list ys x = 0"
  by (induction ys) auto

lemma pos_sum_notin: "x \<notin> set ys \<Longrightarrow> pos_sum k x ys = 0"
  by (induction ys arbitrary: k) auto

lemma pos_sum_sorted:
  "sorted s \<Longrightarrow>
   2 * pos_sum k x s =
     count_list s x * (2 * (k + length (filter (\<lambda>y. y < x) s)) + count_list s x + 1)"
proof (induction s arbitrary: k)
  case Nil
  then show ?case by simp
next
  case (Cons y ys)
  from Cons.prems have sorted_ys: "sorted ys" and ge: "\<forall>z \<in> set ys. y \<le> z"
    by simp_all
  have IH: "2 * pos_sum (k + 1) x ys =
      count_list ys x * (2 * (k + 1 + length (filter (\<lambda>y. y < x) ys)) + count_list ys x + 1)"
    using Cons.IH [OF sorted_ys] .
  consider (eq) "y = x" | (less) "y < x" | (greater) "x < y"
    by (rule linorder_cases [of y x]) auto
  then show ?case
  proof cases
    case eq
    with ge have "filter (\<lambda>y. y < x) ys = []"
      by (auto simp add: filter_empty_conv)
    with eq IH show ?thesis
      by (simp add: algebra_simps)
  next
    case less
    with IH show ?thesis
      by (simp add: algebra_simps)
  next
    case greater
    with ge have "x \<notin> set ys" by auto
    moreover from greater have "y \<noteq> x" by simp
    ultimately show ?thesis
      by (simp add: pos_sum_notin count_list_0_iff_notin)
  qed
qed

lemma avg_rank_closed:
  assumes "x \<in> set vs"
  shows "avg_rank vs x =
    real (length (filter (\<lambda>y. y < x) vs)) + (real (count_list vs x) + 1) / 2"
proof -
  let ?l = "length (filter (\<lambda>y. y < x) vs)" and ?c = "count_list vs x"
  have "2 * pos_sum 0 x (sort vs) = ?c * (2 * ?l + ?c + 1)"
    using pos_sum_sorted [of "sort vs" 0 x]
    by (simp add: count_list_sort length_less_sort)
  then have "2 * real (pos_sum 0 x (sort vs)) = real ?c * (2 * real ?l + real ?c + 1)"
    by (metis (mono_tags, lifting) of_nat_1 of_nat_add of_nat_mult of_nat_numeral)
  moreover from assms have "0 < ?c"
    by (induction vs) auto
  ultimately show ?thesis
    by (simp add: avg_rank_def field_simps)
qed

lemma Some_in_valid: "Some x \<in> set xs \<longleftrightarrow> x \<in> set (valid xs)"
  by (induction xs) (auto simp add: valid_def split: option.splits)

lemma rank_pct_nth:
  assumes "i < length xs"
  shows "rank_pct xs ! i =
    (case xs ! i of None \<Rightarrow> None | Some x \<Rightarrow> Some (rank_fraction (valid xs) x))"
proof (cases "xs ! i")
  case None
  with assms show ?thesis by (simp add: rank_pct_def)
next
  case (Some x)
  with assms have "Some x \<in> set xs" by (metis nth_mem)
  then have "x \<in> set (valid xs)" by (simp add: Some_in_valid)
  then have closed: "avg_rank (valid xs) x / real (length (valid xs)) = rank_fraction (valid xs) x"
    by (simp only: avg_rank_closed rank_fraction_def)
  from assms have "rank_pct xs ! i =
      (case xs ! i of None \<Rightarrow> None
       | Some x \<Rightarrow> Some (avg_rank (valid xs) x / real (length (valid xs))))"
    by (simp only: rank_pct_def nth_map)
  with Some closed show ?thesis
    by (simp only: option.case)
qed

lemma length_three_way:
  "length vs = length (filter (\<lambda>y. y < x) vs) + count_list vs x
                + length (filter (\<lambda>y. (x::'a::linorder) < y) vs)"
proof (induction vs)
  case Nil
  then show ?case by simp
next
  case (Cons a vs)
  consider "a < x" "\<not> x < a" "a \<noteq> x" | "a = x" | "x < a" "\<not> a < x" "a \<noteq> x"
    by (cases a x rule: linorder_cases) (simp_all add: order.asym)
  then show ?case
    using Cons.IH by cases simp_all
qed

lemma count_pos: "x \<in> set vs \<Longrightarrow> 0 < count_list vs x"
  by (induction vs) auto

lemma rank_fraction_range:
  assumes "x \<in> set vs"
  shows "0 < rank_fraction vs x" and "rank_fraction vs x \<le> 1"
proof -
  let ?l = "length (filter (\<lambda>y. y < x) vs)" and ?c = "count_list vs x"
  have c: "0 < ?c" using assms by (rule count_pos)
  have n: "?l + ?c \<le> length vs" using length_three_way [of vs x] by simp
  from assms have pos: "0 < length vs" by (cases vs) auto
  then show "0 < rank_fraction vs x"
    by (simp add: rank_fraction_def add_nonneg_pos)
  have "real ?l + (real ?c + 1) / 2 \<le> real ?l + real ?c"
    using c by simp
  also have "\<dots> \<le> real (length vs)"
    using n by linarith
  finally show "rank_fraction vs x \<le> 1"
    using pos by (simp add: rank_fraction_def)
qed

lemma length_le_split:
  "length (filter (\<lambda>y. y \<le> x) vs) =
     length (filter (\<lambda>y. y < x) vs) + count_list vs (x::'a::linorder)"
proof (induction vs)
  case Nil
  then show ?case by simp
next
  case (Cons a vs)
  consider "a < x" "a \<le> x" "a \<noteq> x" | "a = x" | "x < a" "\<not> a < x" "\<not> a \<le> x" "a \<noteq> x"
    by (cases a x rule: linorder_cases) (simp_all add: order.asym)
  then show ?case
    using Cons.IH by cases simp_all
qed

lemma rank_fraction_untied:
  assumes "count_list vs x = 1"
  shows "rank_fraction vs x = real (length (filter (\<lambda>y. y \<le> x) vs)) / real (length vs)"
proof -
  have "length (filter (\<lambda>y. y \<le> x) vs) = length (filter (\<lambda>y. y < x) vs) + count_list vs x"
    by (rule length_le_split)
  with assms show ?thesis
    by (simp add: rank_fraction_def)
qed

lemma rank_fraction_unique_max:
  assumes "count_list vs x = 1" and "\<forall>y \<in> set vs. y \<le> x"
  shows "rank_fraction vs x = 1"
proof -
  from assms(2) have "filter (\<lambda>y. x < y) vs = []"
    by (auto simp add: filter_empty_conv)
  with length_three_way [of vs x] assms(1)
  have "length vs = length (filter (\<lambda>y. y < x) vs) + 1" by simp
  then show ?thesis
    using assms(1) by (simp add: rank_fraction_def)
qed

lemma less_block:
  "x < y \<Longrightarrow>
   length (filter (\<lambda>z. z < x) vs) + count_list vs x \<le> length (filter (\<lambda>z. z < (y::'a::linorder)) vs)"
proof (induction vs)
  case Nil
  then show ?case by simp
next
  case (Cons a vs)
  from Cons.prems have IH:
    "length (filter (\<lambda>z. z < x) vs) + count_list vs x \<le> length (filter (\<lambda>z. z < y) vs)"
    by (rule Cons.IH)
  consider "a < x" "a < y" "a \<noteq> x" | "a = x" "a < y" | "x < a" "\<not> a < x" "a \<noteq> x"
    using Cons.prems by (cases a x rule: linorder_cases) (simp_all add: order.asym)
  then show ?case
    using IH by cases simp_all
qed

lemma rank_fraction_mono:
  assumes "x \<le> y"
  shows "rank_fraction vs x \<le> rank_fraction vs y"
proof (cases "x = y")
  case True
  then show ?thesis by simp
next
  case False
  with assms have "x < y" by simp
  define a where "a = real (length (filter (\<lambda>z. z < x) vs))"
  define b where "b = real (length (filter (\<lambda>z. z < y) vs))"
  define c where "c = real (count_list vs x)"
  define d where "d = real (count_list vs y)"
  have "a + c \<le> b"
    using less_block [OF \<open>x < y\<close>, of vs] unfolding a_def b_def c_def
    by (metis of_nat_add of_nat_le_iff)
  moreover have "0 \<le> c" "0 \<le> d"
    by (simp_all add: c_def d_def)
  ultimately have "a + (c + 1) / 2 \<le> b + (d + 1) / 2"
    by (simp add: field_simps)
  then have "(a + (c + 1) / 2) / real (length vs) \<le> (b + (d + 1) / 2) / real (length vs)"
    by (rule divide_right_mono) simp
  then show ?thesis
    unfolding rank_fraction_def a_def b_def c_def d_def .
qed

lemma map_of_groupby_agg:
  "map_of (groupby_agg js) k =
     (if k \<in> joined_segment_id ` set js
      then Some (sum_list (map joined_canopy_area_sq_m (filter (\<lambda>j. joined_segment_id j = k) js)),
                 sum_list (map joined_CO2_sequestered_kg (filter (\<lambda>j. joined_segment_id j = k) js)),
                 length (remdups (map joined_botanical_name (filter (\<lambda>j. joined_segment_id j = k) js))))
      else None)"
  by (simp add: groupby_agg_def Let_def map_of_map_restrict restrict_map_def)

lemma merged_frame_eq:
  "merged_frame G roads T d =
     map (\<lambda>r. (r, fillna0 (map_of (groupby_agg (joined_frame G roads T d)) (segment_id r))))
         (roads_rows roads)"
  by (simp add: merged_frame_def merge_left_distinct [OF groupby_agg_distinct])

lemma length_merged_frame: "length (merged_frame G roads T d) = length (roads_rows roads)"
  by (simp add: merged_frame_eq)

lemma labelled_areas_eq:
  "labelled_areas G roads d =
     map (\<lambda>r. (index_label r, area G (buffer G (geometry r) d))) (roads_rows roads)"
  by (simp add: labelled_areas_def make_buffers_def comp_def)

lemma labels_of_areas: "map fst (labelled_areas G roads d) = map index_label (roads_rows roads)"
  by (simp add: labelled_areas_eq comp_def)

subsection \<open>The division of line 52\<close>

lemma align_div_Inr:
  assumes "align_div xs labelled = Inr col"
  shows "distinct (map fst labelled)" and "length col = length xs"
    and "i < length xs \<Longrightarrow>
           col ! i = (case map_of labelled (int i) of None \<Rightarrow> None | Some y \<Rightarrow> fdiv (xs ! i) y)"
proof -
  from assms show d: "distinct (map fst labelled)"
    by (simp add: align_div_def split: if_splits)
  with assms have col: "col = map (\<lambda>(i, x). case map_of labelled (int i) of
                                 None \<Rightarrow> None | Some y \<Rightarrow> fdiv x y) (zip [0 ..< length xs] xs)"
    by (simp add: align_div_def)
  then show "length col = length xs"
    by simp
  assume "i < length xs"
  then show "col ! i = (case map_of labelled (int i) of None \<Rightarrow> None | Some y \<Rightarrow> fdiv (xs ! i) y)"
    by (simp add: col)
qed

lemma align_div_Inl: "align_div xs labelled = Inl e \<longleftrightarrow> \<not> distinct (map fst labelled)"
  by (cases e) (simp add: align_div_def)

lemma default_index_lookup:
  assumes "default_index roads" and "i < length (roads_rows roads)"
  shows "map_of (labelled_areas G roads d) (int i) =
           Some (area G (buffer G (geometry (roads_rows roads ! i)) d))"
proof -
  let ?rows = "roads_rows roads"
  have labels: "map fst (labelled_areas G roads d) = map int [0 ..< length ?rows]"
    using assms(1) by (simp add: labels_of_areas default_index_def)
  then have dist: "distinct (map fst (labelled_areas G roads d))"
    by (simp add: distinct_map inj_on_def)
  have len: "length (labelled_areas G roads d) = length ?rows"
    by (simp add: labelled_areas_eq)
  from labels assms(2) len have "fst (labelled_areas G roads d ! i) = int i"
    by (metis (no_types, lifting) add_0 diff_zero length_map length_upt nth_map nth_upt)
  moreover have "snd (labelled_areas G roads d ! i) = area G (buffer G (geometry (?rows ! i)) d)"
    using assms(2) by (simp add: labelled_areas_eq)
  ultimately have "labelled_areas G roads d ! i = (int i, area G (buffer G (geometry (?rows ! i)) d))"
    by (simp add: prod_eq_iff)
  moreover from assms(2) len have "labelled_areas G roads d ! i \<in> set (labelled_areas G roads d)"
    by simp
  ultimately have "(int i, area G (buffer G (geometry (?rows ! i)) d)) \<in> set (labelled_areas G roads d)"
    by simp
  with dist show ?thesis
    by (rule map_of_is_SomeI)
qed

lemma default_index_distinct:
  "default_index roads \<Longrightarrow> distinct (map index_label (roads_rows roads))"
  by (simp add: default_index_def distinct_map inj_on_def)

subsection \<open>The assembled rows\<close>

lemma length_assemble: "length (assemble G col merged) = length merged"
  by (simp add: assemble_def Let_def)

lemma assemble_labels: "map index_label (assemble G col merged) = map int [0 ..< length merged]"
  by (rule nth_equalityI) (simp_all add: assemble_def Let_def split: prod.split)

lemma assemble_ids:
  "map segment_id (assemble G col merged) = map (\<lambda>(r, a, c, n). segment_id r) merged"
  by (rule nth_equalityI) (simp_all add: assemble_def Let_def split: prod.split)

lemma assemble_geometry:
  "map geometry (assemble G col merged) = map (\<lambda>(r, a, c, n). geometry r) merged"
  by (rule nth_equalityI) (simp_all add: assemble_def Let_def split: prod.split)

lemma assemble_aggregates:
  "map (\<lambda>row. (canopy_area_sq_m row, s_co2_total row, s_bio_count row)) (assemble G col merged) =
     map snd merged"
  by (rule nth_equalityI) (simp_all add: assemble_def Let_def split: prod.split)

lemma assemble_raw:
  "length col = length merged \<Longrightarrow> map s_canopy (assemble G col merged) = col"
  "map s_co2 (assemble G col merged) =
     map (\<lambda>(r, a, c, n). fdiv c (glength G (geometry r))) merged"
  "map s_bio (assemble G col merged) = map (\<lambda>(r, a, c, n). Some (Fin (ln (1 + n)))) merged"
  by (rule nth_equalityI, simp_all add: assemble_def Let_def split: prod.split)+

lemma assemble_norm:
  assumes "length col = length merged"
  shows "map s_canopy_norm (assemble G col merged) = rank_pct (map s_canopy (assemble G col merged))"
    and "map s_co2_norm (assemble G col merged) = rank_pct (map s_co2 (assemble G col merged))"
    and "map s_bio_norm (assemble G col merged) = rank_pct (map s_bio (assemble G col merged))"
  unfolding assemble_raw(1) [OF assms] assemble_raw(2,3)
  using assms
  by (rule_tac [!] nth_equalityI)
     (simp_all add: assemble_def Let_def length_rank_pct split: prod.split)

lemma assemble_composite:
  assumes "row \<in> set (assemble G col merged)"
  shows "static_eqs row =
           fadd (fadd (fmul 0.5 (s_canopy_norm row)) (fmul 0.3 (s_co2_norm row)))
                (fmul 0.2 (s_bio_norm row))"
    and "serenity_score row = fadd (fmul 0.7 (s_canopy_norm row)) (fmul 0.3 (s_bio_norm row))"
  using assms by (auto simp add: assemble_def Let_def split: prod.split)

subsection \<open>The call\<close>

lemma calc_unfold:
  "calculate_environmental_scores G roads trees d =
     (case joined_trees G roads trees of
        Inl e \<Rightarrow>
          Inl \<lparr>raised_exception = e,
               raised_printed = Performing d #
                                  (if roads_crs roads \<noteq> trees_crs trees then [CrsWarning] else []),
               raised_trees = trees\<rparr>
      | Inr T \<Rightarrow>
          (case align_div (map (\<lambda>(r, a, c, n). a) (merged_frame G roads T d))
                          (labelled_areas G roads d) of
             Inl e \<Rightarrow>
               Inl \<lparr>raised_exception = e,
                    raised_printed = Performing d #
                                       (if roads_crs roads \<noteq> trees_crs trees then [CrsWarning] else []),
                    raised_trees =
                      (if roads_crs roads \<noteq> trees_crs trees then trees
                       else T\<lparr>trees_canopy_area_sq_m := Some (map canopy_area (trees_rows T))\<rparr>)\<rparr>
           | Inr col \<Rightarrow>
               Inr \<lparr>printed = Performing d #
                                (if roads_crs roads \<noteq> trees_crs trees then [CrsWarning] else []),
                    roads_after = roads,
                    trees_after =
                      (if roads_crs roads \<noteq> trees_crs trees then trees
                       else T\<lparr>trees_canopy_area_sq_m := Some (map canopy_area (trees_rows T))\<rparr>),
                    returned = assemble G col (merged_frame G roads T d)\<rparr>))"
  by (simp add: calculate_environmental_scores_def joined_trees_def score_rows_def Let_def
        merged_frame_def joined_frame_def labelled_areas_def split: sum.split)

lemma calc_Inr:
  assumes "calculate_environmental_scores G roads trees d = Inr out"
  obtains T col where "joined_trees G roads trees = Inr T"
    and "align_div (map (\<lambda>(r, a, c, n). a) (merged_frame G roads T d))
           (labelled_areas G roads d) = Inr col"
    and "printed out =
           Performing d # (if roads_crs roads \<noteq> trees_crs trees then [CrsWarning] else [])"
    and "roads_after out = roads"
    and "trees_after out =
           (if roads_crs roads \<noteq> trees_crs trees then trees
            else T\<lparr>trees_canopy_area_sq_m := Some (map canopy_area (trees_rows T))\<rparr>)"
    and "returned out = assemble G col (merged_frame G roads T d)"
proof (cases "joined_trees G roads trees")
  case (Inl e)
  with assms show ?thesis
    by (simp add: calc_unfold)
next
  case T: (Inr T)
  show ?thesis
  proof (cases "align_div (map (\<lambda>(r, a, c, n). a) (merged_frame G roads T d))
                  (labelled_areas G roads d)")
    case (Inl e)
    with assms T show ?thesis
      by (simp add: calc_unfold)
  next
    case (Inr col)
    with assms T have "out =
        \<lparr>printed = Performing d #
                    (if roads_crs roads \<noteq> trees_crs trees then [CrsWarning] else []),
         roads_after = roads,
         trees_after =
           (if roads_crs roads \<noteq> trees_crs trees then trees
            else T\<lparr>trees_canopy_area_sq_m := Some (map canopy_area (trees_rows T))\<rparr>),
         returned = assemble G col (merged_frame G roads T d)\<rparr>"
      by (simp add: calc_unfold)
    then have "printed out =
           Performing d # (if roads_crs roads \<noteq> trees_crs trees then [CrsWarning] else [])"
      and "roads_after out = roads"
      and "trees_after out =
           (if roads_crs roads \<noteq> trees_crs trees then trees
            else T\<lparr>trees_canopy_area_sq_m := Some (map canopy_area (trees_rows T))\<rparr>)"
      and "returned out = assemble G col (merged_frame G roads T d)"
      by simp_all
    with T Inr that show ?thesis
      by blast
  qed
qed

lemma joined_trees_Inl:
  "joined_trees G roads trees = Inl e \<longleftrightarrow> crs_unset_mismatch roads trees"
  by (cases e)
     (auto simp add: joined_trees_def crs_unset_mismatch_def to_crs_def split: option.splits)

lemma joined_trees_cases:
  obtains (unset) "crs_unset_mismatch roads trees" "joined_trees G roads trees = Inl ValueError"
  | (aligned) T where "\<not> crs_unset_mismatch roads trees" "joined_trees G roads trees = Inr T"
proof (cases "joined_trees G roads trees")
  case (Inl e)
  then have "crs_unset_mismatch roads trees"
    by (simp only: joined_trees_Inl)
  moreover from Inl have "joined_trees G roads trees = Inl ValueError"
    by (cases e) simp
  ultimately show ?thesis
    by (rule unset)
next
  case (Inr T)
  have "\<not> crs_unset_mismatch roads trees"
  proof
    assume "crs_unset_mismatch roads trees"
    then have "joined_trees G roads trees = Inl ValueError"
      by (simp only: joined_trees_Inl)
    with Inr show False by simp
  qed
  then show ?thesis
    using Inr by (rule aligned)
qed

lemma calc_returns_iff:
  "(\<exists>out. calculate_environmental_scores G roads trees d = Inr out) \<longleftrightarrow>
     \<not> crs_unset_mismatch roads trees \<and> distinct (map index_label (roads_rows roads))"
proof (cases rule: joined_trees_cases [of roads trees G])
  case unset
  then show ?thesis
    by (simp add: calc_unfold)
next
  case (aligned T)
  show ?thesis
  proof (cases "distinct (map index_label (roads_rows roads))")
    case True
    then have "\<exists>col. align_div (map (\<lambda>(r, a, c, n). a) (merged_frame G roads T d))
                  (labelled_areas G roads d) = Inr col"
      by (simp add: align_div_def labels_of_areas)
    with aligned True show ?thesis
      by (auto simp add: calc_unfold)
  next
    case False
    then have "align_div (map (\<lambda>(r, a, c, n). a) (merged_frame G roads T d))
                  (labelled_areas G roads d) = Inl ValueError"
      by (simp add: align_div_def labels_of_areas)
    with aligned False show ?thesis
      by (simp add: calc_unfold)
  qed
qed

lemma calc_raises_iff:
  "(\<exists>r. calculate_environmental_scores G roads trees d = Inl r) \<longleftrightarrow>
     crs_unset_mismatch roads trees \<or> \<not> distinct (map index_label (roads_rows roads))"
proof -
  have "(\<exists>r. calculate_environmental_scores G roads trees d = Inl r) \<longleftrightarrow>
      \<not> (\<exists>out. calculate_environmental_scores G roads trees d = Inr out)"
    by (cases "calculate_environmental_scores G roads trees d") simp_all
  then show ?thesis
    by (simp only: calc_returns_iff) blast
qed

lemma calc_raises_unset:
  assumes "crs_unset_mismatch roads trees"
  shows "calculate_environmental_scores G roads trees d =
           Inl \<lparr>raised_exception = ValueError, raised_printed = [Performing d, CrsWarning],
                raised_trees = trees\<rparr>"
proof -
  from assms have "joined_trees G roads trees = Inl ValueError"
    by (simp only: joined_trees_Inl)
  moreover from assms have "roads_crs roads \<noteq> trees_crs trees"
    by (simp add: crs_unset_mismatch_def)
  ultimately show ?thesis
    by (simp add: calc_unfold)
qed

lemma calc_raises_labels:
  assumes "joined_trees G roads trees = Inr T"
    and "\<not> distinct (map index_label (roads_rows roads))"
  shows "calculate_environmental_scores G roads trees d =
           Inl \<lparr>raised_exception = ValueError,
                raised_printed = Performing d #
                                   (if roads_crs roads \<noteq> trees_crs trees then [CrsWarning] else []),
                raised_trees =
                  (if roads_crs roads \<noteq> trees_crs trees then trees
                   else T\<lparr>trees_canopy_area_sq_m := Some (map canopy_area (trees_rows T))\<rparr>)\<rparr>"
proof -
  from assms(2) have "align_div (map (\<lambda>(r, a, c, n). a) (merged_frame G roads T d))
                  (labelled_areas G roads d) = Inl ValueError"
    by (simp add: align_div_def labels_of_areas)
  with assms(1) show ?thesis
    by (simp add: calc_unfold)
qed

subsection \<open>The returned frame\<close>

lemma returned_shape:
  assumes "calculate_environmental_scores G roads trees d = Inr out"
  shows "length (returned out) = length (roads_rows roads)"
    and "map segment_id (returned out) = map segment_id (roads_rows roads)"
    and "map geometry (returned out) = map geometry (roads_rows roads)"
    and "map index_label (returned out) = map int [0 ..< length (roads_rows roads)]"
    and "distinct (map index_label (roads_rows roads))"
proof -
  from assms obtain T col where
    col: "align_div (map (\<lambda>(r, a, c, n). a) (merged_frame G roads T d))
            (labelled_areas G roads d) = Inr col"
    and ret: "returned out = assemble G col (merged_frame G roads T d)"
    by (rule calc_Inr)
  show "length (returned out) = length (roads_rows roads)"
    by (simp add: ret length_assemble length_merged_frame)
  show "map segment_id (returned out) = map segment_id (roads_rows roads)"
    by (simp add: ret assemble_ids merged_frame_eq comp_def)
  show "map geometry (returned out) = map geometry (roads_rows roads)"
    by (simp add: ret assemble_geometry merged_frame_eq comp_def)
  show "map index_label (returned out) = map int [0 ..< length (roads_rows roads)]"
    by (simp add: ret assemble_labels length_merged_frame)
  from align_div_Inr(1) [OF col] show "distinct (map index_label (roads_rows roads))"
    by (simp only: labels_of_areas)
qed

lemma returned_effects:
  assumes "calculate_environmental_scores G roads trees d = Inr out"
  shows "printed out =
           Performing d # (if roads_crs roads \<noteq> trees_crs trees then [CrsWarning] else [])"
    and "roads_after out = roads"
proof -
  from assms show "printed out =
           Performing d # (if roads_crs roads \<noteq> trees_crs trees then [CrsWarning] else [])"
    by (rule calc_Inr)
  from assms show "roads_after out = roads"
    by (rule calc_Inr)
qed

lemma trees_after_eq:
  assumes "calculate_environmental_scores G roads trees d = Inr out"
    and "joined_trees G roads trees = Inr T"
  shows "trees_after out =
           (if roads_crs roads \<noteq> trees_crs trees then trees
            else T\<lparr>trees_canopy_area_sq_m := Some (map canopy_area (trees_rows T))\<rparr>)"
  using assms(1)
proof (rule calc_Inr)
  fix T' col
  assume "joined_trees G roads trees = Inr T'"
    and "trees_after out =
           (if roads_crs roads \<noteq> trees_crs trees then trees
            else T'\<lparr>trees_canopy_area_sq_m := Some (map canopy_area (trees_rows T'))\<rparr>)"
  with assms(2) show ?thesis
    by simp
qed

lemma returned_eq:
  assumes "calculate_environmental_scores G roads trees d = Inr out"
    and "joined_trees G roads trees = Inr T"
  obtains col where
    "align_div (map (\<lambda>(r, a, c, n). a) (merged_frame G roads T d)) (labelled_areas G roads d) = Inr col"
    and "returned out = assemble G col (merged_frame G roads T d)"
    and "length col = length (merged_frame G roads T d)"
  using assms(1)
proof (rule calc_Inr)
  fix T' col
  assume T': "joined_trees G roads trees = Inr T'"
    and col: "align_div (map (\<lambda>(r, a, c, n). a) (merged_frame G roads T' d))
                (labelled_areas G roads d) = Inr col"
    and ret: "returned out = assemble G col (merged_frame G roads T' d)"
  from T' assms(2) have eq: "T' = T" by simp
  from align_div_Inr(2) [OF col] have "length col = length (merged_frame G roads T' d)"
    by simp
  with col ret that show ?thesis
    unfolding eq by blast
qed

lemma returned_aggregates_nth:
  assumes "calculate_environmental_scores G roads trees d = Inr out"
    and "joined_trees G roads trees = Inr T"
    and "i < length (roads_rows roads)"
  shows "(canopy_area_sq_m (returned out ! i), s_co2_total (returned out ! i),
          s_bio_count (returned out ! i)) =
         fillna0 (map_of (groupby_agg (joined_frame G roads T d))
                         (segment_id (roads_rows roads ! i)))"
proof -
  from assms(1,2) obtain col where
    ret: "returned out = assemble G col (merged_frame G roads T d)"
    by (rule returned_eq)
  have "map (\<lambda>row. (canopy_area_sq_m row, s_co2_total row, s_bio_count row)) (returned out) ! i =
        map snd (merged_frame G roads T d) ! i"
    by (simp only: ret assemble_aggregates)
  with assms(3) show ?thesis
    by (simp add: ret length_assemble length_merged_frame) (simp add: merged_frame_eq)
qed

lemma returned_raw:
  assumes "calculate_environmental_scores G roads trees d = Inr out"
    and "i < length (roads_rows roads)"
  shows "s_canopy (returned out ! i) =
           (case map_of (labelled_areas G roads d) (int i) of
              None \<Rightarrow> None
            | Some y \<Rightarrow> fdiv (canopy_area_sq_m (returned out ! i)) y)"
    and "s_co2 (returned out ! i) =
           fdiv (s_co2_total (returned out ! i)) (glength G (geometry (roads_rows roads ! i)))"
    and "s_bio (returned out ! i) = Some (Fin (ln (1 + s_bio_count (returned out ! i))))"
proof -
  from assms(1) obtain T where T: "joined_trees G roads trees = Inr T"
    by (rule calc_Inr)
  from assms(1) T obtain col where
    col: "align_div (map (\<lambda>(r, a, c, n). a) (merged_frame G roads T d))
            (labelled_areas G roads d) = Inr col"
    and ret: "returned out = assemble G col (merged_frame G roads T d)"
    and len: "length col = length (merged_frame G roads T d)"
    by (rule returned_eq)
  let ?m = "merged_frame G roads T d"
  from assms(2) have i: "i < length ?m"
    by (simp add: length_merged_frame)
  obtain r a c n where m: "?m ! i = (r, a, c, n)"
    by (cases "?m ! i") auto
  with assms(2) have r: "r = roads_rows roads ! i"
    by (simp add: merged_frame_eq)
  from i m have row: "canopy_area_sq_m (returned out ! i) = a"
    "s_co2_total (returned out ! i) = c" "s_bio_count (returned out ! i) = n"
    "s_canopy (returned out ! i) = col ! i"
    "s_co2 (returned out ! i) = fdiv c (glength G (geometry r))"
    "s_bio (returned out ! i) = Some (Fin (ln (1 + n)))"
    by (simp_all add: ret assemble_def Let_def)
  from i m have xs: "map (\<lambda>(r, a, c, n). a) ?m ! i = a"
    by simp
  from i have "i < length (map (\<lambda>(r, a, c, n). a) ?m)"
    by simp
  with col have "col ! i = (case map_of (labelled_areas G roads d) (int i) of
              None \<Rightarrow> None | Some y \<Rightarrow> fdiv (map (\<lambda>(r, a, c, n). a) ?m ! i) y)"
    by (rule align_div_Inr(3))
  then have "col ! i = (case map_of (labelled_areas G roads d) (int i) of
              None \<Rightarrow> None | Some y \<Rightarrow> fdiv a y)"
    unfolding xs .
  with row(4) show "s_canopy (returned out ! i) =
           (case map_of (labelled_areas G roads d) (int i) of
              None \<Rightarrow> None
            | Some y \<Rightarrow> fdiv (canopy_area_sq_m (returned out ! i)) y)"
    unfolding row(1) by simp
  from row r show "s_co2 (returned out ! i) =
           fdiv (s_co2_total (returned out ! i)) (glength G (geometry (roads_rows roads ! i)))"
    by simp
  from row show "s_bio (returned out ! i) = Some (Fin (ln (1 + s_bio_count (returned out ! i))))"
    by simp
qed

lemma returned_canopy_default:
  assumes "calculate_environmental_scores G roads trees d = Inr out"
    and "default_index roads"
    and "i < length (roads_rows roads)"
  shows "s_canopy (returned out ! i) =
           fdiv (canopy_area_sq_m (returned out ! i))
                (area G (buffer G (geometry (roads_rows roads ! i)) d))"
  using returned_raw(1) [OF assms(1,3)] default_index_lookup [OF assms(2,3), of G d]
  by simp

lemma raw_columns:
  "map (raw S_canopy) rows = map s_canopy rows"
  "map (raw S_co2) rows = map s_co2 rows"
  "map (raw S_bio) rows = map s_bio rows"
  by (induction rows) simp_all

lemma norm_columns:
  "map (norm_of S_canopy) rows = map s_canopy_norm rows"
  "map (norm_of S_co2) rows = map s_co2_norm rows"
  "map (norm_of S_bio) rows = map s_bio_norm rows"
  by (induction rows) simp_all

lemma returned_norm_columns:
  assumes "calculate_environmental_scores G roads trees d = Inr out"
  shows "map (norm_of c) (returned out) = rank_pct (map (raw c) (returned out))"
proof -
  from assms obtain T where T: "joined_trees G roads trees = Inr T"
    by (rule calc_Inr)
  from assms T obtain col where
    ret: "returned out = assemble G col (merged_frame G roads T d)"
    and len: "length col = length (merged_frame G roads T d)"
    by (rule returned_eq)
  show ?thesis
    by (cases c) (simp_all only: raw_columns norm_columns ret assemble_norm [OF len])
qed

lemma returned_norm_nth:
  assumes "calculate_environmental_scores G roads trees d = Inr out"
    and "i < length (returned out)"
  shows "norm_of c (returned out ! i) =
    (case raw c (returned out ! i) of
       None \<Rightarrow> None
     | Some x \<Rightarrow> Some (rank_fraction (valid (map (raw c) (returned out))) x))"
proof -
  from assms(2) have "norm_of c (returned out ! i) = map (norm_of c) (returned out) ! i"
    by simp
  also have "\<dots> = rank_pct (map (raw c) (returned out)) ! i"
    by (simp only: returned_norm_columns [OF assms(1)])
  also from assms(2) have "\<dots> =
      (case map (raw c) (returned out) ! i of None \<Rightarrow> None
       | Some x \<Rightarrow> Some (rank_fraction (valid (map (raw c) (returned out))) x))"
    by (intro rank_pct_nth) simp
  finally show ?thesis
    using assms(2) by simp
qed

lemma raw_in_valid:
  assumes "i < length rows" and "raw c (rows ! i) = Some x"
  shows "x \<in> set (valid (map (raw c) rows))"
proof -
  from assms have "Some x \<in> set (map (raw c) rows)"
    by (metis length_map nth_map nth_mem)
  then show ?thesis
    by (simp only: Some_in_valid)
qed

lemma returned_norm_range:
  assumes "calculate_environmental_scores G roads trees d = Inr out"
    and "i < length (returned out)"
    and "norm_of c (returned out ! i) = Some v"
  shows "0 < v \<and> v \<le> 1"
proof -
  from returned_norm_nth [OF assms(1,2), of c] assms(3)
  obtain x where x: "raw c (returned out ! i) = Some x"
    and v: "v = rank_fraction (valid (map (raw c) (returned out))) x"
    by (cases "raw c (returned out ! i)") simp_all
  from assms(2) x have "x \<in> set (valid (map (raw c) (returned out)))"
    by (rule raw_in_valid)
  then show ?thesis
    unfolding v by (simp add: rank_fraction_range)
qed

lemma returned_bio_norm_defined:
  assumes "calculate_environmental_scores G roads trees d = Inr out"
    and "i < length (returned out)"
  shows "s_bio_norm (returned out ! i) \<noteq> None"
proof -
  from assms have i: "i < length (roads_rows roads)"
    by (simp add: returned_shape(1))
  from returned_norm_nth [OF assms, of S_bio] returned_raw(3) [OF assms(1) i]
  show ?thesis by simp
qed

lemma returned_composite:
  assumes "calculate_environmental_scores G roads trees d = Inr out"
    and "i < length (returned out)"
  shows "static_eqs (returned out ! i) =
           fadd (fadd (fmul 0.5 (s_canopy_norm (returned out ! i)))
                      (fmul 0.3 (s_co2_norm (returned out ! i))))
                (fmul 0.2 (s_bio_norm (returned out ! i)))"
    and "serenity_score (returned out ! i) =
           fadd (fmul 0.7 (s_canopy_norm (returned out ! i)))
                (fmul 0.3 (s_bio_norm (returned out ! i)))"
proof -
  from assms(1) obtain T where T: "joined_trees G roads trees = Inr T"
    by (rule calc_Inr)
  from assms(1) T obtain col where
    ret: "returned out = assemble G col (merged_frame G roads T d)"
    by (rule returned_eq)
  from assms(2) have mem: "returned out ! i \<in> set (assemble G col (merged_frame G roads T d))"
    unfolding ret by simp
  show "static_eqs (returned out ! i) =
           fadd (fadd (fmul 0.5 (s_canopy_norm (returned out ! i)))
                      (fmul 0.3 (s_co2_norm (returned out ! i))))
                (fmul 0.2 (s_bio_norm (returned out ! i)))"
    by (rule assemble_composite(1) [OF mem])
  show "serenity_score (returned out ! i) =
           fadd (fmul 0.7 (s_canopy_norm (returned out ! i)))
                (fmul 0.3 (s_bio_norm (returned out ! i)))"
    by (rule assemble_composite(2) [OF mem])
qed

subsection \<open>The trees joined to a segment\<close>

lemma zip_map_same: "zip xs (map f xs) = map (\<lambda>x. (x, f x)) xs"
  by (induction xs) simp_all

lemma joined_rows_of_tree:
  "filter (\<lambda>j. joined_segment_id j = k)
     (map (\<lambda>b. \<lparr>joined_canopy_area_sq_m = a, joined_CO2_sequestered_kg = c,
                 joined_botanical_name = n, joined_segment_id = buffer_segment_id b\<rparr>)
        (filter (\<lambda>b. lies_within G p (buffer_geometry b)) (make_buffers G rows d))) =
   map (\<lambda>r. \<lparr>joined_canopy_area_sq_m = a, joined_CO2_sequestered_kg = c,
              joined_botanical_name = n, joined_segment_id = k\<rparr>)
     (filter (\<lambda>r. segment_id r = k \<and> lies_within G p (buffer G (geometry r) d)) rows)"
  by (induction rows) (simp_all add: make_buffers_def)

lemma joined_frame_group:
  "filter (\<lambda>j. joined_segment_id j = k) (joined_frame G roads T d) =
   map (\<lambda>t. \<lparr>joined_canopy_area_sq_m = canopy_area t,
              joined_CO2_sequestered_kg = CO2_sequestered_kg t,
              joined_botanical_name = botanical_name t, joined_segment_id = k\<rparr>)
     (trees_joined_to G roads T d k)"
proof -
  have "filter (\<lambda>j. joined_segment_id j = k)
          (sjoin G (map (\<lambda>t. (t, canopy_area t)) ts) (make_buffers G rows d)) =
        map (\<lambda>t. \<lparr>joined_canopy_area_sq_m = canopy_area t,
              joined_CO2_sequestered_kg = CO2_sequestered_kg t,
              joined_botanical_name = botanical_name t, joined_segment_id = k\<rparr>)
          (concat (map (\<lambda>t. map (\<lambda>r. t)
                    (filter (\<lambda>r. segment_id r = k
                                  \<and> lies_within G (location t) (buffer G (geometry r) d)) rows))
                 ts))" for ts rows
  proof (induction ts)
    case Nil
    show ?case by (simp add: sjoin_def)
  next
    case (Cons t ts)
    from Cons.IH show ?case
      by (simp add: sjoin_def joined_rows_of_tree comp_def)
  qed
  then show ?thesis
    by (simp only: joined_frame_def trees_joined_to_def zip_map_same)
qed

lemma joined_key_iff:
  "k \<in> joined_segment_id ` set (joined_frame G roads T d) \<longleftrightarrow> trees_joined_to G roads T d k \<noteq> []"
proof -
  have "k \<in> joined_segment_id ` set js \<longleftrightarrow> filter (\<lambda>j. joined_segment_id j = k) js \<noteq> []" for js
    by (auto simp add: filter_empty_conv)
  then have "k \<in> joined_segment_id ` set (joined_frame G roads T d) \<longleftrightarrow>
      filter (\<lambda>j. joined_segment_id j = k) (joined_frame G roads T d) \<noteq> []" .
  then show ?thesis
    unfolding joined_frame_group by simp
qed

lemma aggregates_of_segment:
  "fillna0 (map_of (groupby_agg (joined_frame G roads T d)) k) =
     (sum_list (map canopy_area (trees_joined_to G roads T d k)),
      sum_list (map CO2_sequestered_kg (trees_joined_to G roads T d k)),
      real (length (remdups (map botanical_name (trees_joined_to G roads T d k)))))"
proof (cases "trees_joined_to G roads T d k = []")
  case True
  then show ?thesis
    by (simp add: map_of_groupby_agg joined_key_iff fillna0_def)
next
  case False
  then show ?thesis
    by (simp add: map_of_groupby_agg joined_key_iff fillna0_def joined_frame_group comp_def)
qed

lemma returned_sums:
  assumes "calculate_environmental_scores G roads trees d = Inr out"
    and "joined_trees G roads trees = Inr T"
    and "i < length (roads_rows roads)"
  shows "canopy_area_sq_m (returned out ! i) =
           sum_list (map canopy_area (trees_joined_to G roads T d (segment_id (roads_rows roads ! i))))"
    and "s_co2_total (returned out ! i) =
           sum_list (map CO2_sequestered_kg
                      (trees_joined_to G roads T d (segment_id (roads_rows roads ! i))))"
    and "s_bio_count (returned out ! i) =
           real (length (remdups (map botanical_name
                      (trees_joined_to G roads T d (segment_id (roads_rows roads ! i))))))"
  using returned_aggregates_nth [OF assms] by (simp_all add: aggregates_of_segment)

lemma canopy_area_nonneg: "0 \<le> canopy_area t"
  by (simp add: canopy_area_def)

lemma canopy_sum_nonneg:
  assumes "calculate_environmental_scores G roads trees d = Inr out"
    and "i < length (roads_rows roads)"
  shows "0 \<le> canopy_area_sq_m (returned out ! i)"
proof -
  from assms(1) obtain T where T: "joined_trees G roads trees = Inr T"
    by (rule calc_Inr)
  have "0 \<le> sum_list (map canopy_area ts)" for ts :: "'b tree list"
    by (rule sum_list_nonneg) (auto simp add: canopy_area_nonneg)
  with returned_sums(1) [OF assms(1) T assms(2)] show ?thesis
    by simp
qed

subsection \<open>Calls that return\<close>

lemma calc_returns:
  assumes "\<not> crs_unset_mismatch roads trees"
    and "distinct (map index_label (roads_rows roads))"
  obtains out T where "calculate_environmental_scores G roads trees d = Inr out"
    and "joined_trees G roads trees = Inr T"
proof -
  from assms have "\<exists>out. calculate_environmental_scores G roads trees d = Inr out"
    by (simp add: calc_returns_iff)
  then obtain out where out: "calculate_environmental_scores G roads trees d = Inr out" ..
  then obtain T where "joined_trees G roads trees = Inr T"
    by (rule calc_Inr)
  with out show ?thesis
    by (rule that)
qed

lemma Inr_projr: "\<exists>out. x = Inr out \<and> P out \<Longrightarrow> \<not> isl x \<and> P (projr x)"
  by auto

lemma distinct_filter_eq_one:
  "distinct xs \<Longrightarrow> k \<in> set xs \<Longrightarrow> length (filter (\<lambda>i. i = k) xs) = 1"
proof (induction xs)
  case Nil
  then show ?case by simp
next
  case (Cons x xs)
  show ?case
  proof (cases "x = k")
    case True
    with Cons.prems have "k \<notin> set xs" by simp
    then have "filter (\<lambda>i. i = k) xs = []"
      by (auto simp add: filter_empty_conv)
    with True show ?thesis by simp
  next
    case False
    with Cons show ?thesis by simp
  qed
qed

lemma rows_with_id:
  "length (filter (\<lambda>row. segment_id row = k) rows) = length (filter (\<lambda>i. i = k) (map segment_id rows))"
  by (induction rows) simp_all

lemma example_roads_ok:
  "\<not> crs_unset_mismatch example_roads example_trees"
  "\<not> crs_unset_mismatch example_roads sparse_trees"
  "\<not> crs_unset_mismatch example_roads shifted_trees"
  "\<not> crs_unset_mismatch example_roads negative_trees"
  "distinct (map index_label (roads_rows example_roads))"
  "default_index example_roads"
  by (simp_all add: crs_unset_mismatch_def default_index_def example_roads_def example_trees_def
        sparse_trees_def shifted_trees_def negative_trees_def)

section \<open>The claims\<close>

subsection \<open>One row per segment, in row order\<close>

text \<open>
  C1. When the segment ids of the roads frame are pairwise different, the call returns
  unless it raises \<^verbatim>\<open>ValueError\<close> (a reference system is unset, or the roads index has
  a label twice), and the returned frame has as many rows as the roads frame; for every
  road row exactly one returned row carries its segment id, whether or not a tree was
  joined to it.
\<close>

theorem one_row_per_segment:
  assumes "distinct (map segment_id (roads_rows roads))"
    and "\<not> crs_unset_mismatch roads trees"
    and "distinct (map index_label (roads_rows roads))"
  shows "\<exists>out. calculate_environmental_scores G roads trees d = Inr out
    \<and> length (returned out) = length (roads_rows roads)
    \<and> (\<forall>r \<in> set (roads_rows roads).
          length (filter (\<lambda>row. segment_id row = segment_id r) (returned out)) = 1)"
proof -
  from assms(2,3) obtain out where
    out: "calculate_environmental_scores G roads trees d = Inr out"
    by (rule calc_returns)
  have "length (filter (\<lambda>row. segment_id row = segment_id r) (returned out)) = 1"
    if "r \<in> set (roads_rows roads)" for r
  proof -
    from that have "segment_id r \<in> set (map segment_id (roads_rows roads))"
      by simp
    with assms(1) show ?thesis
      by (simp only: rows_with_id returned_shape(2) [OF out] distinct_filter_eq_one)
  qed
  with out returned_shape(1) [OF out] show ?thesis
    by blast
qed

theorem one_row_per_segment_witness:
  "\<not> isl (calculate_environmental_scores planar example_roads example_trees 10)
   \<and> length (returned (projr (calculate_environmental_scores planar example_roads example_trees 10))) = 2
   \<and> length (filter (\<lambda>row. segment_id row = 1)
        (returned (projr (calculate_environmental_scores planar example_roads example_trees 10)))) = 1
   \<and> length (filter (\<lambda>row. segment_id row = 2)
        (returned (projr (calculate_environmental_scores planar example_roads example_trees 10)))) = 1"
proof -
  have "distinct (map segment_id (roads_rows example_roads))"
    by (simp add: example_roads_def)
  from Inr_projr [OF one_row_per_segment [OF this example_roads_ok(1,5), of planar 10]]
  show ?thesis
    by (simp add: example_roads_def)
qed

text \<open>
  C10. The returned frame lists the segments in the row order of the roads frame: its
  columns \<^verbatim>\<open>segment_id\<close> and \<^verbatim>\<open>geometry\<close> are those of the roads frame, row for row.
  This holds of every call that does not raise, whether or not the segment ids are
  unique.
\<close>

theorem output_in_input_order:
  assumes "\<not> crs_unset_mismatch roads trees"
    and "distinct (map index_label (roads_rows roads))"
  shows "\<exists>out. calculate_environmental_scores G roads trees d = Inr out
    \<and> map segment_id (returned out) = map segment_id (roads_rows roads)
    \<and> map geometry (returned out) = map geometry (roads_rows roads)"
proof -
  from assms obtain out where
    out: "calculate_environmental_scores G roads trees d = Inr out"
    by (rule calc_returns)
  with returned_shape(2,3) [OF out] show ?thesis
    by blast
qed

theorem output_in_input_order_witness:
  "\<not> isl (calculate_environmental_scores planar example_roads example_trees 10)
   \<and> map segment_id (returned (projr (calculate_environmental_scores planar example_roads example_trees 10)))
       = [1, 2]
   \<and> map geometry (returned (projr (calculate_environmental_scores planar example_roads example_trees 10)))
       = [HLine 0 0 100, HLine 50 0 100]"
  using Inr_projr [OF output_in_input_order [OF example_roads_ok(1,5), of planar 10]]
  by (simp add: example_roads_def)

subsection \<open>Segments without trees\<close>

lemma joined_trees_same_crs:
  "roads_crs roads = trees_crs trees \<Longrightarrow> joined_trees G roads trees = Inr trees"
  by (simp add: joined_trees_def)

lemma zero_trees_scores:
  assumes "calculate_environmental_scores G roads trees d = Inr out"
    and "joined_trees G roads trees = Inr T"
    and "i < length (roads_rows roads)"
    and "trees_joined_to G roads T d (segment_id (roads_rows roads ! i)) = []"
  shows "canopy_area_sq_m (returned out ! i) = 0"
    and "s_co2_total (returned out ! i) = 0"
    and "s_bio_count (returned out ! i) = 0"
    and "s_bio (returned out ! i) = Some (Fin 0)"
    and "0 < glength G (geometry (roads_rows roads ! i)) \<Longrightarrow> s_co2 (returned out ! i) = Some (Fin 0)"
    and "default_index roads \<Longrightarrow> 0 < area G (buffer G (geometry (roads_rows roads ! i)) d)
           \<Longrightarrow> s_canopy (returned out ! i) = Some (Fin 0)"
proof -
  from returned_sums [OF assms(1,2,3)] assms(4)
  show a: "canopy_area_sq_m (returned out ! i) = 0"
    and c: "s_co2_total (returned out ! i) = 0"
    and n: "s_bio_count (returned out ! i) = 0"
    by simp_all
  from returned_raw(3) [OF assms(1,3)] n show "s_bio (returned out ! i) = Some (Fin 0)"
    by simp
  show "s_co2 (returned out ! i) = Some (Fin 0)"
    if "0 < glength G (geometry (roads_rows roads ! i))"
    using returned_raw(2) [OF assms(1,3)] c that by (simp add: fdiv_def)
  show "s_canopy (returned out ! i) = Some (Fin 0)"
    if "default_index roads" and "0 < area G (buffer G (geometry (roads_rows roads ! i)) d)"
    using returned_canopy_default [OF assms(1) that(1) assms(3)] a that(2) by (simp add: fdiv_def)
qed

lemma relabelled_roads_ok:
  "\<not> crs_unset_mismatch relabelled_roads sparse_trees"
  "distinct (map index_label (roads_rows relabelled_roads))"
  "joined_trees planar relabelled_roads sparse_trees = Inr sparse_trees"
  by (simp_all add: crs_unset_mismatch_def joined_trees_def relabelled_roads_def sparse_trees_def)

lemma relabelled_no_trees:
  "trees_joined_to planar relabelled_roads sparse_trees 10 2 = []"
  by (simp add: trees_joined_to_def relabelled_roads_def sparse_trees_def example_tree_rows_def
        planar_def)

text \<open>
  C2 holds of the fill with 0 and of two of the three raw scores, and of \<open>s_canopy\<close> when
  the roads frame has the default index (lemma \<open>zero_trees_scores\<close>). It fails for
  \<open>s_canopy\<close> otherwise: line 52 divides a column of the merged frame, whose index is
  \<open>0, 1\<close>, by a column of \<^verbatim>\<open>road_buffers\<close>, whose index is the caller's. With the example
  roads under the index \<open>10, 20\<close> and no tree near the second segment, that segment has a
  positive length and a positive buffer area, its aggregates are 0, and its
  \<open>s_canopy\<close> is NaN; \<open>s_co2\<close> and \<open>s_bio\<close> are 0.
\<close>

theorem zero_trees_relabelled_index_nan:
  "\<not> isl (calculate_environmental_scores planar relabelled_roads sparse_trees 10)
   \<and> segment_id (roads_rows relabelled_roads ! 1) = 2
   \<and> trees_joined_to planar relabelled_roads sparse_trees 10 2 = []
   \<and> 0 < area planar (buffer planar (geometry (roads_rows relabelled_roads ! 1)) 10)
   \<and> 0 < glength planar (geometry (roads_rows relabelled_roads ! 1))
   \<and> canopy_area_sq_m
        (returned (projr (calculate_environmental_scores planar relabelled_roads sparse_trees 10)) ! 1) = 0
   \<and> s_canopy
        (returned (projr (calculate_environmental_scores planar relabelled_roads sparse_trees 10)) ! 1) = None
   \<and> s_co2
        (returned (projr (calculate_environmental_scores planar relabelled_roads sparse_trees 10)) ! 1)
       = Some (Fin 0)
   \<and> s_bio
        (returned (projr (calculate_environmental_scores planar relabelled_roads sparse_trees 10)) ! 1)
       = Some (Fin 0)"
proof -
  from relabelled_roads_ok(1,2) obtain out where
    out: "calculate_environmental_scores planar relabelled_roads sparse_trees 10 = Inr out"
    by (rule calc_returns)
  have i: "1 < length (roads_rows relabelled_roads)"
    and k: "segment_id (roads_rows relabelled_roads ! 1) = 2"
    and len: "0 < glength planar (geometry (roads_rows relabelled_roads ! 1))"
    by (simp_all add: relabelled_roads_def planar_def)
  have ar: "0 < area planar (buffer planar (geometry (roads_rows relabelled_roads ! 1)) 10)"
    by (simp add: relabelled_roads_def planar_def add_pos_pos)
  have none: "trees_joined_to planar relabelled_roads sparse_trees 10
                (segment_id (roads_rows relabelled_roads ! 1)) = []"
    unfolding k by (rule relabelled_no_trees)
  note zero = zero_trees_scores [OF out relabelled_roads_ok(3) i none]
  have "map_of (labelled_areas planar relabelled_roads 10) (int 1) = None"
    by (simp add: labelled_areas_eq relabelled_roads_def)
  with returned_raw(1) [OF out i] have "s_canopy (returned out ! 1) = None"
    by simp
  with zero(1,4) zero(5) [OF len] k ar len relabelled_no_trees show ?thesis
    unfolding out by simp
qed

subsection \<open>Zero divisors\<close>

lemma zero_divisors:
  assumes "calculate_environmental_scores G roads trees d = Inr out"
    and "i < length (roads_rows roads)"
  shows "default_index roads \<Longrightarrow> area G (buffer G (geometry (roads_rows roads ! i)) d) = 0 \<Longrightarrow>
           s_canopy (returned out ! i) =
             (if canopy_area_sq_m (returned out ! i) = 0 then None else Some PInf)"
    and "glength G (geometry (roads_rows roads ! i)) = 0 \<Longrightarrow>
           s_co2 (returned out ! i) =
             (if s_co2_total (returned out ! i) = 0 then None
              else if 0 < s_co2_total (returned out ! i) then Some PInf else Some NInf)"
proof -
  show "s_canopy (returned out ! i) =
             (if canopy_area_sq_m (returned out ! i) = 0 then None else Some PInf)"
    if "default_index roads" and "area G (buffer G (geometry (roads_rows roads ! i)) d) = 0"
    using returned_canopy_default [OF assms(1) that(1) assms(2)] that(2)
      canopy_sum_nonneg [OF assms]
    by (simp add: fdiv_def)
  show "s_co2 (returned out ! i) =
             (if s_co2_total (returned out ! i) = 0 then None
              else if 0 < s_co2_total (returned out ! i) then Some PInf else Some NInf)"
    if "glength G (geometry (roads_rows roads ! i)) = 0"
    using returned_raw(2) [OF assms] that by (simp add: fdiv_def)
qed

lemma degenerate_roads_ok:
  "\<not> crs_unset_mismatch degenerate_roads example_trees"
  "distinct (map index_label (roads_rows degenerate_roads))"
  "default_index degenerate_roads"
  "joined_trees planar degenerate_roads example_trees = Inr example_trees"
  "1 < length (roads_rows degenerate_roads)"
  "area planar (buffer planar (geometry (roads_rows degenerate_roads ! 1)) 10) = 0"
  "glength planar (geometry (roads_rows degenerate_roads ! 1)) = 0"
  "trees_joined_to planar degenerate_roads example_trees 10
     (segment_id (roads_rows degenerate_roads ! 1)) = []"
  by (simp_all add: crs_unset_mismatch_def default_index_def joined_trees_def degenerate_roads_def
        example_trees_def example_tree_rows_def trees_joined_to_def planar_def)

lemma degenerate_raw:
  assumes "calculate_environmental_scores planar degenerate_roads example_trees 10 = Inr out"
  shows "canopy_area_sq_m (returned out ! 1) = 0" and "s_co2_total (returned out ! 1) = 0"
    and "s_canopy (returned out ! 1) = None" and "s_co2 (returned out ! 1) = None"
proof -
  note zero = zero_trees_scores(1,2) [OF assms degenerate_roads_ok(4,5,8)]
  from zero show "canopy_area_sq_m (returned out ! 1) = 0" and "s_co2_total (returned out ! 1) = 0"
    by simp_all
  from zero_divisors(1) [OF assms degenerate_roads_ok(5,3,6)] zero(1)
  show "s_canopy (returned out ! 1) = None"
    by simp
  from zero_divisors(2) [OF assms degenerate_roads_ok(5,7)] zero(2)
  show "s_co2 (returned out ! 1) = None"
    by simp
qed

text \<open>
  C3, as stated, fails: the second segment of \<open>degenerate_roads\<close> is an empty line
  string, its buffer has area 0 and its length is 0, and the function returns NaN, not 0,
  for both \<open>s_canopy\<close> and \<open>s_co2\<close>.
\<close>

theorem zero_divisor_counterexample:
  "\<not> isl (calculate_environmental_scores planar degenerate_roads example_trees 10)
   \<and> area planar (buffer planar (geometry (roads_rows degenerate_roads ! 1)) 10) = 0
   \<and> glength planar (geometry (roads_rows degenerate_roads ! 1)) = 0
   \<and> s_canopy (returned (projr (calculate_environmental_scores planar degenerate_roads example_trees 10)) ! 1)
       \<noteq> Some (Fin 0)
   \<and> s_co2 (returned (projr (calculate_environmental_scores planar degenerate_roads example_trees 10)) ! 1)
       \<noteq> Some (Fin 0)"
proof -
  from degenerate_roads_ok(1,2) obtain out where
    out: "calculate_environmental_scores planar degenerate_roads example_trees 10 = Inr out"
    by (rule calc_returns)
  from degenerate_raw(3,4) [OF out] degenerate_roads_ok(6,7) show ?thesis
    unfolding out by simp
qed

text \<open>
  C3, amended. The two divisions are not guarded and raise nothing. For a segment whose
  geometry has length zero, \<open>s_co2\<close> is NaN when the summed CO2 of the segment is 0 and
  an infinity of the sign of that sum otherwise; it is never a finite number. For a
  segment whose buffer area is zero, in a roads frame with the default index,
  \<open>s_canopy\<close> is NaN when the summed canopy area of the segment is 0 and plus infinity
  otherwise (the sum of canopy areas is never negative). The call returns unless a
  reference system is unset or the roads index has a label twice.
\<close>

theorem zero_divisor_gives_nan_or_infinity:
  assumes "\<not> crs_unset_mismatch roads trees"
    and "distinct (map index_label (roads_rows roads))"
    and "i < length (roads_rows roads)"
  shows "\<exists>out. calculate_environmental_scores G roads trees d = Inr out
    \<and> (default_index roads \<and> area G (buffer G (geometry (roads_rows roads ! i)) d) = 0 \<longrightarrow>
          s_canopy (returned out ! i) =
            (if canopy_area_sq_m (returned out ! i) = 0 then None else Some PInf))
    \<and> (glength G (geometry (roads_rows roads ! i)) = 0 \<longrightarrow>
          s_co2 (returned out ! i) =
            (if s_co2_total (returned out ! i) = 0 then None
             else if 0 < s_co2_total (returned out ! i) then Some PInf else Some NInf))"
proof -
  from assms(1,2) obtain out where
    out: "calculate_environmental_scores G roads trees d = Inr out"
    by (rule calc_returns)
  from zero_divisors [OF out assms(3)] out show ?thesis
    by (intro exI [of _ out]) simp
qed

lemma pointlike_roads_ok:
  "\<not> crs_unset_mismatch pointlike_roads example_trees"
  "distinct (map index_label (roads_rows pointlike_roads))"
  "joined_trees planar pointlike_roads example_trees = Inr example_trees"
  "1 < length (roads_rows pointlike_roads)"
  "glength planar (geometry (roads_rows pointlike_roads ! 1)) = 0"
  "sum_list (map CO2_sequestered_kg (trees_joined_to planar pointlike_roads example_trees 10
     (segment_id (roads_rows pointlike_roads ! 1)))) = 70"
  by (simp_all add: crs_unset_mismatch_def joined_trees_def pointlike_roads_def
        example_trees_def example_tree_rows_def trees_joined_to_def planar_def)

lemma repeated_roads_ok:
  "\<not> crs_unset_mismatch repeated_roads example_trees"
  "distinct (map index_label (roads_rows repeated_roads))"
  "default_index repeated_roads"
  "joined_trees planar repeated_roads example_trees = Inr example_trees"
  "1 < length (roads_rows repeated_roads)"
  "area planar (buffer planar (geometry (roads_rows repeated_roads ! 1)) 10) = 0"
  "sum_list (map canopy_area (trees_joined_to planar repeated_roads example_trees 10
     (segment_id (roads_rows repeated_roads ! 1)))) = pi * 41"
  by (simp_all add: crs_unset_mismatch_def default_index_def joined_trees_def repeated_roads_def
        example_trees_def example_tree_rows_def trees_joined_to_def planar_def canopy_area_def
        power2_eq_square)

theorem zero_divisor_gives_nan_or_infinity_witness:
  "\<not> isl (calculate_environmental_scores planar degenerate_roads example_trees 10)
   \<and> s_canopy (returned (projr (calculate_environmental_scores planar degenerate_roads example_trees 10)) ! 1)
       = None
   \<and> s_co2 (returned (projr (calculate_environmental_scores planar degenerate_roads example_trees 10)) ! 1)
       = None
   \<and> \<not> isl (calculate_environmental_scores planar pointlike_roads example_trees 10)
   \<and> s_co2 (returned (projr (calculate_environmental_scores planar pointlike_roads example_trees 10)) ! 1)
       = Some PInf
   \<and> \<not> isl (calculate_environmental_scores planar repeated_roads example_trees 10)
   \<and> s_canopy (returned (projr (calculate_environmental_scores planar repeated_roads example_trees 10)) ! 1)
       = Some PInf"
proof -
  from zero_divisor_gives_nan_or_infinity [OF degenerate_roads_ok(1,2,5), of planar 10]
  obtain out where out: "calculate_environmental_scores planar degenerate_roads example_trees 10 = Inr out"
    and "s_canopy (returned out ! 1) = (if canopy_area_sq_m (returned out ! 1) = 0 then None else Some PInf)"
    and "s_co2 (returned out ! 1) =
            (if s_co2_total (returned out ! 1) = 0 then None
             else if 0 < s_co2_total (returned out ! 1) then Some PInf else Some NInf)"
    using degenerate_roads_ok(3,6,7) by auto
  with degenerate_raw(1,2) [OF out]
  have 1: "\<not> isl (calculate_environmental_scores planar degenerate_roads example_trees 10)
   \<and> s_canopy (returned (projr (calculate_environmental_scores planar degenerate_roads example_trees 10)) ! 1)
       = None
   \<and> s_co2 (returned (projr (calculate_environmental_scores planar degenerate_roads example_trees 10)) ! 1)
       = None"
    by simp
  from zero_divisor_gives_nan_or_infinity [OF pointlike_roads_ok(1,2,4), of planar 10]
  obtain out' where out': "calculate_environmental_scores planar pointlike_roads example_trees 10 = Inr out'"
    and co2: "s_co2 (returned out' ! 1) =
            (if s_co2_total (returned out' ! 1) = 0 then None
             else if 0 < s_co2_total (returned out' ! 1) then Some PInf else Some NInf)"
    using pointlike_roads_ok(5) by auto
  from returned_sums(2) [OF out' pointlike_roads_ok(3,4)] pointlike_roads_ok(6)
  have "s_co2_total (returned out' ! 1) = 70"
    by simp
  with co2 out'
  have 2: "\<not> isl (calculate_environmental_scores planar pointlike_roads example_trees 10)
   \<and> s_co2 (returned (projr (calculate_environmental_scores planar pointlike_roads example_trees 10)) ! 1)
       = Some PInf"
    by simp
  from zero_divisor_gives_nan_or_infinity [OF repeated_roads_ok(1,2,5), of planar 10]
  obtain out'' where out'': "calculate_environmental_scores planar repeated_roads example_trees 10 = Inr out''"
    and can: "s_canopy (returned out'' ! 1) =
            (if canopy_area_sq_m (returned out'' ! 1) = 0 then None else Some PInf)"
    using repeated_roads_ok(3,6) by auto
  from returned_sums(1) [OF out'' repeated_roads_ok(4,5)] repeated_roads_ok(7)
  have "canopy_area_sq_m (returned out'' ! 1) = pi * 41"
    by simp
  with can out''
  have 3: "\<not> isl (calculate_environmental_scores planar repeated_roads example_trees 10)
   \<and> s_canopy (returned (projr (calculate_environmental_scores planar repeated_roads example_trees 10)) ! 1)
       = Some PInf"
    by simp
  from 1 2 3 show ?thesis
    by (intro conjI) (erule conjE | assumption)+
qed

subsection \<open>Percentile ranks\<close>

text \<open>
  C4, as stated, fails: \<open>degenerate_roads\<close> is a non-empty segment collection, the raw
  score \<open>s_canopy\<close> of its second segment is NaN, and the normalised value of that
  segment is NaN, which does not lie in \<open>(0, 1]\<close>.
\<close>

theorem nan_rank_counterexample:
  "\<not> isl (calculate_environmental_scores planar degenerate_roads example_trees 10)
   \<and> roads_rows degenerate_roads \<noteq> []
   \<and> s_canopy_norm
        (returned (projr (calculate_environmental_scores planar degenerate_roads example_trees 10)) ! 1)
       = None"
proof -
  from degenerate_roads_ok(1,2) obtain out where
    out: "calculate_environmental_scores planar degenerate_roads example_trees 10 = Inr out"
    by (rule calc_returns)
  from degenerate_roads_ok(5) have "1 < length (returned out)"
    by (simp only: returned_shape(1) [OF out])
  from returned_norm_nth [OF out this, of S_canopy] degenerate_raw(3) [OF out]
  show ?thesis
    unfolding out by (simp add: degenerate_roads_def)
qed

lemma rank_normalisation_rows:
  assumes "calculate_environmental_scores G roads trees d = Inr res"
    and "out = returned res"
    and "vs = valid (map (raw c) out)"
    and "i < length out"
  shows "(raw c (out ! i) = None \<longrightarrow> norm_of c (out ! i) = None)
    \<and> (\<forall>x. raw c (out ! i) = Some x \<longrightarrow>
          norm_of c (out ! i) = Some (rank_fraction vs x)
          \<and> 0 < rank_fraction vs x \<and> rank_fraction vs x \<le> 1
          \<and> (count_list vs x = 1 \<longrightarrow>
                rank_fraction vs x = real (length (filter (\<lambda>y. y \<le> x) vs)) / real (length vs))
          \<and> (count_list vs x = 1 \<and> (\<forall>y \<in> set vs. y \<le> x) \<longrightarrow> rank_fraction vs x = 1)
          \<and> (\<forall>j y. j < length out \<and> raw c (out ! j) = Some y \<and> x \<le> y \<longrightarrow>
                norm_of c (out ! j) = Some (rank_fraction vs y)
                \<and> rank_fraction vs x \<le> rank_fraction vs y))"
proof (intro conjI impI allI)
  assume "raw c (out ! i) = None"
  with returned_norm_nth [OF assms(1), of i c] assms(2,4)
  show "norm_of c (out ! i) = None"
    by simp
next
  fix x
  assume x: "raw c (out ! i) = Some x"
  with returned_norm_nth [OF assms(1), of i c] assms(2,3,4)
  show "norm_of c (out ! i) = Some (rank_fraction vs x)"
    by simp
  from assms(3,4) x have mem: "x \<in> set vs"
    by (simp only: raw_in_valid)
  then show "0 < rank_fraction vs x" and "rank_fraction vs x \<le> 1"
    by (rule rank_fraction_range)+
next
  fix x
  assume "count_list vs x = 1"
  then show "rank_fraction vs x = real (length (filter (\<lambda>y. y \<le> x) vs)) / real (length vs)"
    by (rule rank_fraction_untied)
next
  fix x
  assume "count_list vs x = 1 \<and> (\<forall>y \<in> set vs. y \<le> x)"
  then have "count_list vs x = 1" and "\<forall>y \<in> set vs. y \<le> x"
    by blast+
  then show "rank_fraction vs x = 1"
    by (rule rank_fraction_unique_max)
next
  fix x j y
  assume h: "j < length out \<and> raw c (out ! j) = Some y \<and> x \<le> y"
  with returned_norm_nth [OF assms(1), of j c] assms(2,3)
  show "norm_of c (out ! j) = Some (rank_fraction vs y)"
    by simp
  from h have "x \<le> y" by blast
  then show "rank_fraction vs x \<le> rank_fraction vs y"
    by (rule rank_fraction_mono)
qed

text \<open>
  C4, amended. In each of the three raw-score columns of the returned frame, a segment
  whose raw value is NaN gets the normalised value NaN. A segment whose raw value \<open>x\<close>
  is not NaN gets the average rank fraction of \<open>x\<close> among the values \<open>vs\<close> of the column
  that are not NaN: the number of values below \<open>x\<close> plus the mean rank within the tied
  group of \<open>x\<close>, divided by the number of values that are not NaN. For an untied value
  this is the fraction of those values that are at most \<open>x\<close>. The normalised value lies
  in \<open>(0, 1]\<close>, it is 1 for a uniquely maximal raw value, and it is monotonically
  non-decreasing in the raw value. The call returns unless a reference system is unset
  or the roads index has a label twice.
\<close>

theorem percentile_rank_normalisation:
  assumes "\<not> crs_unset_mismatch roads trees"
    and "distinct (map index_label (roads_rows roads))"
    and "i < length (roads_rows roads)"
  shows "\<exists>res. calculate_environmental_scores G roads trees d = Inr res
    \<and> (let out = returned res; vs = valid (map (raw c) out)
       in length out = length (roads_rows roads)
        \<and> (raw c (out ! i) = None \<longrightarrow> norm_of c (out ! i) = None)
        \<and> (\<forall>x. raw c (out ! i) = Some x \<longrightarrow>
              norm_of c (out ! i) = Some (rank_fraction vs x)
              \<and> 0 < rank_fraction vs x \<and> rank_fraction vs x \<le> 1
              \<and> (count_list vs x = 1 \<longrightarrow>
                    rank_fraction vs x = real (length (filter (\<lambda>y. y \<le> x) vs)) / real (length vs))
              \<and> (count_list vs x = 1 \<and> (\<forall>y \<in> set vs. y \<le> x) \<longrightarrow> rank_fraction vs x = 1)
              \<and> (\<forall>j y. j < length out \<and> raw c (out ! j) = Some y \<and> x \<le> y \<longrightarrow>
                    norm_of c (out ! j) = Some (rank_fraction vs y)
                    \<and> rank_fraction vs x \<le> rank_fraction vs y)))"
proof -
  from assms(1,2) obtain res where
    res: "calculate_environmental_scores G roads trees d = Inr res"
    by (rule calc_returns)
  note len = returned_shape(1) [OF res]
  with assms(3) have i: "i < length (returned res)"
    by simp
  from rank_normalisation_rows [OF res refl refl i, of c] len res show ?thesis
    unfolding Let_def by (intro exI [of _ res] conjI) (assumption | erule conjunct1 | erule conjunct2)+
qed

lemma list_of_two: "length xs = 2 \<Longrightarrow> xs = [xs ! 0, xs ! 1]"
  by (cases xs; cases "tl xs") auto

lemma sparse_trees_ok:
  "joined_trees planar example_roads sparse_trees = Inr sparse_trees"
  "0 < length (roads_rows example_roads)"
  "1 < length (roads_rows example_roads)"
  "trees_joined_to planar example_roads sparse_trees 10 (segment_id (roads_rows example_roads ! 0))
     = take 2 example_tree_rows"
  "trees_joined_to planar example_roads sparse_trees 10 (segment_id (roads_rows example_roads ! 1))
     = []"
  by (simp_all add: joined_trees_def example_roads_def sparse_trees_def example_tree_rows_def
        trees_joined_to_def planar_def)

lemma sparse_aggregates:
  assumes "calculate_environmental_scores planar example_roads sparse_trees 10 = Inr res"
  shows "canopy_area_sq_m (returned res ! 0) = pi * 41"
    and "s_co2_total (returned res ! 0) = 80"
    and "s_bio_count (returned res ! 0) = 2"
    and "canopy_area_sq_m (returned res ! 1) = 0"
    and "s_co2_total (returned res ! 1) = 0"
    and "s_bio_count (returned res ! 1) = 0"
proof -
  from returned_sums [OF assms sparse_trees_ok(1,2)]
  show "canopy_area_sq_m (returned res ! 0) = pi * 41"
    and "s_co2_total (returned res ! 0) = 80"
    and "s_bio_count (returned res ! 0) = 2"
    unfolding sparse_trees_ok(4)
    by (simp_all add: example_tree_rows_def canopy_area_def power2_eq_square)
  from zero_trees_scores(1,2,3) [OF assms sparse_trees_ok(1,3,5)]
  show "canopy_area_sq_m (returned res ! 1) = 0"
    and "s_co2_total (returned res ! 1) = 0"
    and "s_bio_count (returned res ! 1) = 0"
    by simp_all
qed

lemma sparse_raw:
  assumes "calculate_environmental_scores planar example_roads sparse_trees 10 = Inr res"
  shows "map (raw S_canopy) (returned res) = [Some (Fin (pi * 41 / (2000 + pi * 100))), Some (Fin 0)]"
    and "map (raw S_co2) (returned res) = [Some (Fin (4 / 5)), Some (Fin 0)]"
    and "map (raw S_bio) (returned res) = [Some (Fin (ln 3)), Some (Fin 0)]"
proof -
  have len: "length (returned res) = 2"
    by (simp add: returned_shape(1) [OF assms] example_roads_def)
  have a: "area planar (buffer planar (geometry (roads_rows example_roads ! 0)) 10) = 2000 + pi * 100"
    "area planar (buffer planar (geometry (roads_rows example_roads ! 1)) 10) = 2000 + pi * 100"
    and l: "glength planar (geometry (roads_rows example_roads ! 0)) = 100"
    "glength planar (geometry (roads_rows example_roads ! 1)) = 100"
    by (simp_all add: example_roads_def planar_def)
  have pos: "2000 + pi * 100 \<noteq> 0"
    using pi_gt_zero by (simp add: add_pos_pos less_imp_neq [THEN not_sym])
  note agg = sparse_aggregates [OF assms]
  have c0: "s_canopy (returned res ! 0) = Some (Fin (pi * 41 / (2000 + pi * 100)))"
    using returned_canopy_default [OF assms example_roads_ok(6) sparse_trees_ok(2)] pos
    by (simp add: agg a fdiv_def)
  have c1: "s_canopy (returned res ! 1) = Some (Fin 0)"
    using returned_canopy_default [OF assms example_roads_ok(6) sparse_trees_ok(3)] pos agg(4) a(2)
    by (simp add: fdiv_def)
  have d0: "s_co2 (returned res ! 0) = Some (Fin (4 / 5))"
    using returned_raw(2) [OF assms sparse_trees_ok(2)] agg(2) l(1)
    by (simp add: fdiv_def)
  have d1: "s_co2 (returned res ! 1) = Some (Fin 0)"
    using returned_raw(2) [OF assms sparse_trees_ok(3)] agg(5) l(2)
    by (simp add: fdiv_def)
  have b0: "s_bio (returned res ! 0) = Some (Fin (ln 3))"
    using returned_raw(3) [OF assms sparse_trees_ok(2)] agg(3)
    by simp
  have b1: "s_bio (returned res ! 1) = Some (Fin 0)"
    using returned_raw(3) [OF assms sparse_trees_ok(3)] agg(6)
    by simp
  have two: "map f (returned res) = [f (returned res ! 0), f (returned res ! 1)]"
    for f :: "shape scored \<Rightarrow> fval"
    using list_of_two [OF len] by (metis list.simps(8,9))
  show "map (raw S_canopy) (returned res) = [Some (Fin (pi * 41 / (2000 + pi * 100))), Some (Fin 0)]"
    using c0 c1 by (simp add: two)
  show "map (raw S_co2) (returned res) = [Some (Fin (4 / 5)), Some (Fin 0)]"
    using d0 d1 by (simp add: two)
  show "map (raw S_bio) (returned res) = [Some (Fin (ln 3)), Some (Fin 0)]"
    using b0 b1 by (simp add: two)
qed

theorem percentile_rank_normalisation_witness:
  "\<not> isl (calculate_environmental_scores planar example_roads sparse_trees 10)
   \<and> norm_of S_canopy
        (returned (projr (calculate_environmental_scores planar example_roads sparse_trees 10)) ! 0)
       = Some 1
   \<and> norm_of S_canopy
        (returned (projr (calculate_environmental_scores planar example_roads sparse_trees 10)) ! 1)
       = Some (1 / 2)"
proof -
  define a where "a = pi * 41 / (2000 + pi * 100)"
  have a: "0 < a"
    unfolding a_def using pi_gt_zero by (simp add: add_pos_pos)
  have lt: "Fin 0 < Fin a" "\<not> Fin a < Fin 0" "Fin 0 \<le> Fin a" "Fin a \<noteq> Fin 0"
    using a by (simp_all add: less_ext_def less_eq_ext_def)
  from example_roads_ok(2,5) obtain res where
    res: "calculate_environmental_scores planar example_roads sparse_trees 10 = Inr res"
    by (rule calc_returns)
  have cells: "map (raw S_canopy) (returned res) = [Some (Fin a), Some (Fin 0)]"
    unfolding a_def by (rule sparse_raw(1) [OF res])
  then have vs: "valid (map (raw S_canopy) (returned res)) = [Fin a, Fin 0]"
    by (simp add: valid_def)
  have len: "length (returned res) = 2"
    by (simp add: returned_shape(1) [OF res] example_roads_def)
  then have "map (raw S_canopy) (returned res) ! 0 = raw S_canopy (returned res ! 0)"
    and "map (raw S_canopy) (returned res) ! 1 = raw S_canopy (returned res ! 1)"
    by simp_all
  with cells have r0: "raw S_canopy (returned res ! 0) = Some (Fin a)"
    and r1: "raw S_canopy (returned res ! 1) = Some (Fin 0)"
    by simp_all
  note w0 = Inr_projr [OF percentile_rank_normalisation
      [OF example_roads_ok(2,5) sparse_trees_ok(2), of planar 10 S_canopy]]
  note w1 = Inr_projr [OF percentile_rank_normalisation
      [OF example_roads_ok(2,5) sparse_trees_ok(3), of planar 10 S_canopy]]
  note b0 = w0 [THEN conjunct2, unfolded Let_def res sum.sel vs,
      THEN conjunct2, THEN conjunct2, rule_format, OF r0]
  note b1 = w1 [THEN conjunct2, unfolded Let_def res sum.sel vs,
      THEN conjunct2, THEN conjunct2, rule_format, OF r1]
  note n0 = b0 [THEN conjunct1]
  note max = b0 [THEN conjunct2, THEN conjunct2, THEN conjunct2, THEN conjunct2, THEN conjunct1]
  note n1 = b1 [THEN conjunct1]
  from max lt have "rank_fraction [Fin a, Fin 0] (Fin a) = 1"
    by simp
  moreover from lt have "rank_fraction [Fin a, Fin 0] (Fin 0) = 1 / 2"
    by (simp add: rank_fraction_def)
  ultimately show ?thesis
    using n0 n1 unfolding res by simp
qed

subsection \<open>Composite scores\<close>

text \<open>
  C5, as stated, fails: the second segment of \<open>degenerate_roads\<close> has the normalised
  score \<open>s_canopy_norm\<close> NaN, and both composite scores of that segment are NaN, which
  does not lie in \<open>(0, 1]\<close>.
\<close>

theorem nan_composite_counterexample:
  "\<not> isl (calculate_environmental_scores planar degenerate_roads example_trees 10)
   \<and> static_eqs
        (returned (projr (calculate_environmental_scores planar degenerate_roads example_trees 10)) ! 1)
       = None
   \<and> serenity_score
        (returned (projr (calculate_environmental_scores planar degenerate_roads example_trees 10)) ! 1)
       = None"
proof -
  from degenerate_roads_ok(1,2) obtain out where
    out: "calculate_environmental_scores planar degenerate_roads example_trees 10 = Inr out"
    by (rule calc_returns)
  from degenerate_roads_ok(5) have i: "1 < length (returned out)"
    by (simp only: returned_shape(1) [OF out])
  from returned_norm_nth [OF out i, of S_canopy] degenerate_raw(3) [OF out]
  have "s_canopy_norm (returned out ! 1) = None"
    by simp
  with returned_composite [OF out i] show ?thesis
    unfolding out by (simp add: fadd_def fmul_def)
qed

lemma composite_rows:
  assumes "calculate_environmental_scores G roads trees d = Inr res"
    and "i < length (returned res)"
  shows "s_bio_norm (returned res ! i) \<noteq> None"
    and "s_canopy_norm (returned res ! i) = Some a \<Longrightarrow> s_co2_norm (returned res ! i) = Some b
           \<Longrightarrow> s_bio_norm (returned res ! i) = Some c
           \<Longrightarrow> \<exists>v. static_eqs (returned res ! i) = Some v
                 \<and> \<bar>v - (0.5 * a + 0.3 * b + 0.2 * c)\<bar> \<le> 1 / 10 ^ 9 \<and> 0 < v \<and> v \<le> 1"
    and "s_canopy_norm (returned res ! i) = Some a \<Longrightarrow> s_bio_norm (returned res ! i) = Some c
           \<Longrightarrow> \<exists>v. serenity_score (returned res ! i) = Some v
                 \<and> \<bar>v - (0.7 * a + 0.3 * c)\<bar> \<le> 1 / 10 ^ 9 \<and> 0 < v \<and> v \<le> 1"
    and "s_canopy_norm (returned res ! i) = None \<or> s_co2_norm (returned res ! i) = None
           \<Longrightarrow> static_eqs (returned res ! i) = None"
    and "s_canopy_norm (returned res ! i) = None \<Longrightarrow> serenity_score (returned res ! i) = None"
proof -
  have range: "0 < v \<and> v \<le> 1" if "norm_of col (returned res ! i) = Some v" for col v
    using assms that by (rule returned_norm_range)
  note st = returned_composite(1) [OF assms]
  note se = returned_composite(2) [OF assms]
  show "s_bio_norm (returned res ! i) \<noteq> None"
    using assms by (rule returned_bio_norm_defined)
  show "\<exists>v. static_eqs (returned res ! i) = Some v
          \<and> \<bar>v - (0.5 * a + 0.3 * b + 0.2 * c)\<bar> \<le> 1 / 10 ^ 9 \<and> 0 < v \<and> v \<le> 1"
    if n: "s_canopy_norm (returned res ! i) = Some a" "s_co2_norm (returned res ! i) = Some b"
      "s_bio_norm (returned res ! i) = Some c"
  proof -
    from n range [of S_canopy a] range [of S_co2 b] range [of S_bio c]
    have "0 < a" "a \<le> 1" "0 < b" "b \<le> 1" "0 < c" "c \<le> 1"
      by simp_all
    then have "\<exists>v. fadd (fadd (fmul 0.5 (Some a)) (fmul 0.3 (Some b))) (fmul 0.2 (Some c)) = Some v
           \<and> \<bar>v - (0.5 * a + 0.3 * b + 0.2 * c)\<bar> \<le> 1 / 10 ^ 9 \<and> 0 < v \<and> v \<le> 1"
      by (rule static_eqs_value)
    then show ?thesis
      unfolding st n .
  qed
  show "\<exists>v. serenity_score (returned res ! i) = Some v
          \<and> \<bar>v - (0.7 * a + 0.3 * c)\<bar> \<le> 1 / 10 ^ 9 \<and> 0 < v \<and> v \<le> 1"
    if n: "s_canopy_norm (returned res ! i) = Some a" "s_bio_norm (returned res ! i) = Some c"
  proof -
    from n range [of S_canopy a] range [of S_bio c]
    have "0 < a" "a \<le> 1" "0 < c" "c \<le> 1"
      by simp_all
    then have "\<exists>v. fadd (fmul 0.7 (Some a)) (fmul 0.3 (Some c)) = Some v
           \<and> \<bar>v - (0.7 * a + 0.3 * c)\<bar> \<le> 1 / 10 ^ 9 \<and> 0 < v \<and> v \<le> 1"
      by (rule serenity_value)
    then show ?thesis
      unfolding se n .
  qed
  show "static_eqs (returned res ! i) = None"
    if "s_canopy_norm (returned res ! i) = None \<or> s_co2_norm (returned res ! i) = None"
    using that unfolding st by (auto simp add: fadd_def fmul_def split: option.splits)
  show "serenity_score (returned res ! i) = None" if "s_canopy_norm (returned res ! i) = None"
    using that unfolding se by (simp add: fadd_def fmul_def)
qed

text \<open>
  C5, amended. For every returned segment whose three normalised scores \<open>a\<close>, \<open>b\<close>, \<open>c\<close>
  are not NaN, \<open>static_eqs\<close> is a number within \<open>1e-9\<close> of \<open>0.5 a + 0.3 b + 0.2 c\<close> and
  lies in \<open>(0, 1]\<close>; whenever \<open>a\<close> and \<open>c\<close> are not NaN, \<open>serenity_score\<close> is a number
  within \<open>1e-9\<close> of \<open>0.7 a + 0.3 c\<close> and lies in \<open>(0, 1]\<close>. The products and sums are
  float64 operations, each rounded to nearest. The score \<open>s_bio_norm\<close> is never NaN; a
  NaN among the inputs of a composite score makes that score NaN. The call returns
  unless a reference system is unset or the roads index has a label twice.
\<close>

theorem composite_scores:
  assumes "\<not> crs_unset_mismatch roads trees"
    and "distinct (map index_label (roads_rows roads))"
    and "i < length (roads_rows roads)"
  shows "\<exists>res. calculate_environmental_scores G roads trees d = Inr res
    \<and> length (returned res) = length (roads_rows roads)
    \<and> (\<forall>a b c. s_canopy_norm (returned res ! i) = Some a \<and> s_co2_norm (returned res ! i) = Some b
                  \<and> s_bio_norm (returned res ! i) = Some c \<longrightarrow>
          (\<exists>v. static_eqs (returned res ! i) = Some v
              \<and> \<bar>v - (0.5 * a + 0.3 * b + 0.2 * c)\<bar> \<le> 1 / 10 ^ 9 \<and> 0 < v \<and> v \<le> 1))
    \<and> (\<forall>a c. s_canopy_norm (returned res ! i) = Some a \<and> s_bio_norm (returned res ! i) = Some c \<longrightarrow>
          (\<exists>v. serenity_score (returned res ! i) = Some v
              \<and> \<bar>v - (0.7 * a + 0.3 * c)\<bar> \<le> 1 / 10 ^ 9 \<and> 0 < v \<and> v \<le> 1))
    \<and> s_bio_norm (returned res ! i) \<noteq> None
    \<and> (s_canopy_norm (returned res ! i) = None \<or> s_co2_norm (returned res ! i) = None \<longrightarrow>
          static_eqs (returned res ! i) = None)
    \<and> (s_canopy_norm (returned res ! i) = None \<longrightarrow> serenity_score (returned res ! i) = None)"
proof -
  from assms(1,2) obtain res where
    res: "calculate_environmental_scores G roads trees d = Inr res"
    by (rule calc_returns)
  note len = returned_shape(1) [OF res]
  with assms(3) have i: "i < length (returned res)"
    by simp
  note rows = composite_rows [OF res i]
  show ?thesis
  proof (intro exI [of _ res] conjI allI impI)
    show "calculate_environmental_scores G roads trees d = Inr res"
      by (rule res)
    show "length (returned res) = length (roads_rows roads)"
      by (rule len)
    show "s_bio_norm (returned res ! i) \<noteq> None"
      by (rule rows(1))
  next
    fix a b c
    assume "s_canopy_norm (returned res ! i) = Some a \<and> s_co2_norm (returned res ! i) = Some b
              \<and> s_bio_norm (returned res ! i) = Some c"
    then have "s_canopy_norm (returned res ! i) = Some a" "s_co2_norm (returned res ! i) = Some b"
      "s_bio_norm (returned res ! i) = Some c"
      by simp_all
    then show "\<exists>v. static_eqs (returned res ! i) = Some v
              \<and> \<bar>v - (0.5 * a + 0.3 * b + 0.2 * c)\<bar> \<le> 1 / 10 ^ 9 \<and> 0 < v \<and> v \<le> 1"
      by (rule rows(2))
  next
    fix a c
    assume "s_canopy_norm (returned res ! i) = Some a \<and> s_bio_norm (returned res ! i) = Some c"
    then have "s_canopy_norm (returned res ! i) = Some a" "s_bio_norm (returned res ! i) = Some c"
      by simp_all
    then show "\<exists>v. serenity_score (returned res ! i) = Some v
              \<and> \<bar>v - (0.7 * a + 0.3 * c)\<bar> \<le> 1 / 10 ^ 9 \<and> 0 < v \<and> v \<le> 1"
      by (rule rows(3))
  next
    assume "s_canopy_norm (returned res ! i) = None \<or> s_co2_norm (returned res ! i) = None"
    then show "static_eqs (returned res ! i) = None"
      by (rule rows(4))
  next
    assume "s_canopy_norm (returned res ! i) = None"
    then show "serenity_score (returned res ! i) = None"
      by (rule rows(5))
  qed
qed

lemma rank_fraction_lower_of_two:
  assumes "0 < a"
  shows "rank_fraction [Fin a, Fin 0] (Fin 0) = 1 / 2"
proof -
  from assms have "\<not> Fin a < Fin 0" "Fin a \<noteq> Fin 0"
    by (simp_all add: less_ext_def less_eq_ext_def)
  then show ?thesis
    by (simp add: rank_fraction_def)
qed

lemma lower_of_two_norm:
  assumes "calculate_environmental_scores G roads trees d = Inr res"
    and "0 < a"
    and "map (raw c) (returned res) = [Some (Fin a), Some (Fin 0)]"
  shows "norm_of c (returned res ! 1) = Some (1 / 2)"
proof -
  from assms(3) have "length (map (raw c) (returned res)) = 2"
    by simp
  then have i: "1 < length (returned res)"
    by simp
  then have "raw c (returned res ! 1) = map (raw c) (returned res) ! 1"
    by simp
  with assms(3) have "raw c (returned res ! 1) = Some (Fin 0)"
    by simp
  moreover from assms(3) have "valid (map (raw c) (returned res)) = [Fin a, Fin 0]"
    by (simp add: valid_def)
  ultimately show ?thesis
    using returned_norm_nth [OF assms(1) i, of c] rank_fraction_lower_of_two [OF assms(2)] by simp
qed

lemma sparse_norm_second:
  assumes "calculate_environmental_scores planar example_roads sparse_trees 10 = Inr res"
  shows "norm_of c (returned res ! 1) = Some (1 / 2)"
proof (cases c)
  case S_canopy
  have "0 < pi * 41 / (2000 + pi * 100)"
    using pi_gt_zero by (simp add: add_pos_pos)
  with assms show ?thesis
    unfolding S_canopy using sparse_raw(1) [OF assms] by (rule lower_of_two_norm)
next
  case S_co2
  have "(0::real) < 4 / 5" by simp
  with assms show ?thesis
    unfolding S_co2 using sparse_raw(2) [OF assms] by (rule lower_of_two_norm)
next
  case S_bio
  have "(0::real) < ln 3" by simp
  with assms show ?thesis
    unfolding S_bio using sparse_raw(3) [OF assms] by (rule lower_of_two_norm)
qed

theorem composite_scores_witness:
  "\<not> isl (calculate_environmental_scores planar example_roads sparse_trees 10)
   \<and> static_eqs
        (returned (projr (calculate_environmental_scores planar example_roads sparse_trees 10)) ! 1)
       \<noteq> None
   \<and> \<bar>the (static_eqs
        (returned (projr (calculate_environmental_scores planar example_roads sparse_trees 10)) ! 1))
       - 1 / 2\<bar> \<le> 1 / 10 ^ 9
   \<and> serenity_score
        (returned (projr (calculate_environmental_scores planar example_roads sparse_trees 10)) ! 1)
       \<noteq> None
   \<and> \<bar>the (serenity_score
        (returned (projr (calculate_environmental_scores planar example_roads sparse_trees 10)) ! 1))
       - 1 / 2\<bar> \<le> 1 / 10 ^ 9"
proof -
  from example_roads_ok(2,5) obtain res where
    res: "calculate_environmental_scores planar example_roads sparse_trees 10 = Inr res"
    by (rule calc_returns)
  have n: "s_canopy_norm (returned res ! 1) = Some (1 / 2)" "s_co2_norm (returned res ! 1) = Some (1 / 2)"
    "s_bio_norm (returned res ! 1) = Some (1 / 2)"
    using sparse_norm_second [OF res, of S_canopy] sparse_norm_second [OF res, of S_co2]
      sparse_norm_second [OF res, of S_bio]
    by simp_all
  note w = Inr_projr [OF composite_scores [OF example_roads_ok(2,5) sparse_trees_ok(3), of planar 10]]
  note body = w [THEN conjunct2, unfolded res sum.sel, THEN conjunct2]
  from body [THEN conjunct1, rule_format, of "1 / 2" "1 / 2" "1 / 2"] n
  obtain v where v: "static_eqs (returned res ! 1) = Some v"
    "\<bar>v - (0.5 * (1 / 2) + 0.3 * (1 / 2) + 0.2 * (1 / 2))\<bar> \<le> 1 / 10 ^ 9"
    by blast
  from body [THEN conjunct2, THEN conjunct1, rule_format, of "1 / 2" "1 / 2"] n
  obtain u where u: "serenity_score (returned res ! 1) = Some u"
    "\<bar>u - (0.7 * (1 / 2) + 0.3 * (1 / 2))\<bar> \<le> 1 / 10 ^ 9"
    by blast
  from v u show ?thesis
    unfolding res by simp
qed

subsection \<open>Canopy diameters\<close>

lemma Inr_projr2:
  "\<exists>out T. x = Inr out \<and> y = Inr T \<and> P out T \<Longrightarrow> \<not> isl x \<and> \<not> isl y \<and> P (projr x) (projr y)"
  by auto

lemma joined_trees_diameters:
  assumes "joined_trees G roads trees = Inr T"
  shows "map canopy_dia_m (trees_rows T) = map canopy_dia_m (trees_rows trees)"
proof (cases "roads_crs roads = trees_crs trees")
  case True
  with assms show ?thesis
    by (simp add: joined_trees_def)
next
  case False
  with assms have "to_crs G trees (roads_crs roads) = Inr T"
    by (simp add: joined_trees_def)
  then show ?thesis
    by (auto simp add: to_crs_def comp_def split: option.splits)
qed

lemma canopy_area_abs: "canopy_area t = pi * (\<bar>canopy_dia_m t\<bar> / 2) ^ 2"
  by (simp add: canopy_area_def power2_eq_square)

lemma canopy_area_fun:
  "canopy_area = (\<lambda>t. pi * (canopy_dia_m t / 2) ^ 2)"
  "canopy_area = (\<lambda>t. pi * (\<bar>canopy_dia_m t\<bar> / 2) ^ 2)"
  by (rule ext, simp add: canopy_area_def, rule ext, rule canopy_area_abs)

lemma negative_trees_ok:
  "joined_trees planar example_roads negative_trees = Inr negative_trees"
  "roads_crs example_roads = trees_crs negative_trees"
  "trees_joined_to planar example_roads negative_trees 10 (segment_id (roads_rows example_roads ! 0))
     = trees_rows negative_trees"
  "map canopy_dia_m (trees_rows negative_trees) = [- 10]"
  by (simp_all add: joined_trees_def example_roads_def negative_trees_def trees_joined_to_def
        planar_def)

text \<open>
  C6, as stated, fails: \<open>negative_trees\<close> holds one tree of canopy diameter \<open>-10\<close>. The
  function raises nothing: it returns a frame of two rows, the tree gets the canopy area
  \<open>25 pi\<close>, and that area is aggregated into the first segment.
\<close>

theorem negative_diameter_counterexample:
  "\<not> isl (calculate_environmental_scores planar example_roads negative_trees 10)
   \<and> map canopy_dia_m (trees_rows negative_trees) = [- 10]
   \<and> length (returned (projr (calculate_environmental_scores planar example_roads negative_trees 10))) = 2
   \<and> trees_canopy_area_sq_m
        (trees_after (projr (calculate_environmental_scores planar example_roads negative_trees 10)))
       = Some [pi * 25]
   \<and> canopy_area_sq_m
        (returned (projr (calculate_environmental_scores planar example_roads negative_trees 10)) ! 0)
       = pi * 25"
proof -
  from example_roads_ok(4,5) obtain out where
    out: "calculate_environmental_scores planar example_roads negative_trees 10 = Inr out"
    by (rule calc_returns)
  have "length (returned out) = 2"
    by (simp add: returned_shape(1) [OF out] example_roads_def)
  moreover have "trees_canopy_area_sq_m (trees_after out) = Some [pi * 25]"
    by (simp add: trees_after_eq [OF out negative_trees_ok(1)] negative_trees_ok(2))
       (simp add: negative_trees_def canopy_area_def power2_eq_square)
  moreover have "canopy_area_sq_m (returned out ! 0) = pi * 25"
    unfolding returned_sums(1) [OF out negative_trees_ok(1) sparse_trees_ok(2)] negative_trees_ok(3)
    by (simp add: negative_trees_def canopy_area_def power2_eq_square)
  ultimately show ?thesis
    using negative_trees_ok(4) unfolding out by simp
qed

text \<open>
  C6, amended. No canopy diameter makes the function raise. The call raises
  \<^verbatim>\<open>ValueError\<close> when the two frames differ in their reference systems and one of them
  has none, or when the roads index has a label twice, whatever the diameters; in every
  other case it returns one scored row per road row. The frame that is joined has the
  diameters of the trees input; each tree gets the canopy area \<open>pi (d / 2)\<^sup>2\<close> of its
  diameter \<open>d\<close>, which is the area for \<open>\<bar>d\<bar>\<close>; the \<^verbatim>\<open>canopy_area_sq_m\<close> of every
  segment is the sum of these areas over the trees joined to the segment, trees of
  negative diameter included; and when the two frames share a reference system these
  areas are the column \<^verbatim>\<open>canopy_area_sq_m\<close> of the trees frame after the call.
\<close>

theorem canopy_area_for_every_diameter:
  "(crs_unset_mismatch roads trees \<or> \<not> distinct (map index_label (roads_rows roads)) \<longrightarrow>
      (\<exists>r. calculate_environmental_scores G roads trees d = Inl r \<and> raised_exception r = ValueError))
   \<and> (\<not> crs_unset_mismatch roads trees \<and> distinct (map index_label (roads_rows roads)) \<longrightarrow>
      (\<exists>out T. calculate_environmental_scores G roads trees d = Inr out
         \<and> joined_trees G roads trees = Inr T
         \<and> (map canopy_dia_m (trees_rows T) = map canopy_dia_m (trees_rows trees)
            \<and> length (returned out) = length (roads_rows roads)
            \<and> (roads_crs roads = trees_crs trees \<longrightarrow>
                 trees_canopy_area_sq_m (trees_after out) =
                   Some (map (\<lambda>t. pi * (canopy_dia_m t / 2) ^ 2) (trees_rows trees)))
            \<and> (\<forall>i < length (roads_rows roads).
                 canopy_area_sq_m (returned out ! i) =
                   sum_list (map (\<lambda>t. pi * (canopy_dia_m t / 2) ^ 2)
                     (trees_joined_to G roads T d (segment_id (roads_rows roads ! i))))
                 \<and> canopy_area_sq_m (returned out ! i) =
                   sum_list (map (\<lambda>t. pi * (\<bar>canopy_dia_m t\<bar> / 2) ^ 2)
                     (trees_joined_to G roads T d (segment_id (roads_rows roads ! i))))))))"
proof (intro conjI impI)
  assume "crs_unset_mismatch roads trees \<or> \<not> distinct (map index_label (roads_rows roads))"
  then show "\<exists>r. calculate_environmental_scores G roads trees d = Inl r \<and> raised_exception r = ValueError"
  proof (cases rule: joined_trees_cases [of roads trees G])
    case unset
    from calc_raises_unset [OF unset(1), of G d] show ?thesis
      by simp
  next
    case (aligned T)
    assume "crs_unset_mismatch roads trees \<or> \<not> distinct (map index_label (roads_rows roads))"
    with aligned(1) have "\<not> distinct (map index_label (roads_rows roads))"
      by simp
    from calc_raises_labels [OF aligned(2) this, of d] show ?thesis
      by simp
  qed
next
  assume "\<not> crs_unset_mismatch roads trees \<and> distinct (map index_label (roads_rows roads))"
  then have "\<not> crs_unset_mismatch roads trees" "distinct (map index_label (roads_rows roads))"
    by simp_all
  then obtain out T where out: "calculate_environmental_scores G roads trees d = Inr out"
    and T: "joined_trees G roads trees = Inr T"
    by (rule calc_returns)
  have col: "trees_canopy_area_sq_m (trees_after out) =
      Some (map (\<lambda>t. pi * (canopy_dia_m t / 2) ^ 2) (trees_rows trees))"
    if "roads_crs roads = trees_crs trees"
  proof -
    from that T have "T = trees"
      by (simp add: joined_trees_def)
    with that show ?thesis
      by (simp add: trees_after_eq [OF out T] canopy_area_fun(1) [symmetric])
  qed
  have sums: "canopy_area_sq_m (returned out ! i) =
        sum_list (map (\<lambda>t. pi * (canopy_dia_m t / 2) ^ 2)
          (trees_joined_to G roads T d (segment_id (roads_rows roads ! i))))
      \<and> canopy_area_sq_m (returned out ! i) =
        sum_list (map (\<lambda>t. pi * (\<bar>canopy_dia_m t\<bar> / 2) ^ 2)
          (trees_joined_to G roads T d (segment_id (roads_rows roads ! i))))"
    if "i < length (roads_rows roads)" for i
    using returned_sums(1) [OF out T that]
    by (simp only: canopy_area_fun(1) [symmetric] canopy_area_fun(2) [symmetric])
  show "\<exists>out T. calculate_environmental_scores G roads trees d = Inr out
         \<and> joined_trees G roads trees = Inr T
         \<and> (map canopy_dia_m (trees_rows T) = map canopy_dia_m (trees_rows trees)
            \<and> length (returned out) = length (roads_rows roads)
            \<and> (roads_crs roads = trees_crs trees \<longrightarrow>
                 trees_canopy_area_sq_m (trees_after out) =
                   Some (map (\<lambda>t. pi * (canopy_dia_m t / 2) ^ 2) (trees_rows trees)))
            \<and> (\<forall>i < length (roads_rows roads).
                 canopy_area_sq_m (returned out ! i) =
                   sum_list (map (\<lambda>t. pi * (canopy_dia_m t / 2) ^ 2)
                     (trees_joined_to G roads T d (segment_id (roads_rows roads ! i))))
                 \<and> canopy_area_sq_m (returned out ! i) =
                   sum_list (map (\<lambda>t. pi * (\<bar>canopy_dia_m t\<bar> / 2) ^ 2)
                     (trees_joined_to G roads T d (segment_id (roads_rows roads ! i))))))"
  proof (intro exI [of _ out] exI [of _ T] conjI allI impI)
    show "calculate_environmental_scores G roads trees d = Inr out"
      by (rule out)
    show "joined_trees G roads trees = Inr T"
      by (rule T)
    show "map canopy_dia_m (trees_rows T) = map canopy_dia_m (trees_rows trees)"
      using T by (rule joined_trees_diameters)
    show "length (returned out) = length (roads_rows roads)"
      using out by (rule returned_shape(1))
  next
    assume "roads_crs roads = trees_crs trees"
    then show "trees_canopy_area_sq_m (trees_after out) =
                 Some (map (\<lambda>t. pi * (canopy_dia_m t / 2) ^ 2) (trees_rows trees))"
      by (rule col)
  next
    fix i
    assume "i < length (roads_rows roads)"
    then show "canopy_area_sq_m (returned out ! i) =
                   sum_list (map (\<lambda>t. pi * (canopy_dia_m t / 2) ^ 2)
                     (trees_joined_to G roads T d (segment_id (roads_rows roads ! i))))"
      by (rule sums [THEN conjunct1])
  next
    fix i
    assume "i < length (roads_rows roads)"
    then show "canopy_area_sq_m (returned out ! i) =
                   sum_list (map (\<lambda>t. pi * (\<bar>canopy_dia_m t\<bar> / 2) ^ 2)
                     (trees_joined_to G roads T d (segment_id (roads_rows roads ! i))))"
      by (rule sums [THEN conjunct2])
  qed
qed

lemma unreferenced_trees_unset: "crs_unset_mismatch example_roads unreferenced_trees"
  by (simp add: crs_unset_mismatch_def example_roads_def unreferenced_trees_def)

theorem canopy_area_for_every_diameter_witness:
  "\<not> isl (calculate_environmental_scores planar example_roads negative_trees 10)
   \<and> length (returned (projr (calculate_environmental_scores planar example_roads negative_trees 10))) = 2
   \<and> trees_canopy_area_sq_m
        (trees_after (projr (calculate_environmental_scores planar example_roads negative_trees 10)))
       = Some [pi * (- 10 / 2) ^ 2]
   \<and> canopy_area_sq_m
        (returned (projr (calculate_environmental_scores planar example_roads negative_trees 10)) ! 0)
       = pi * (\<bar>- 10\<bar> / 2) ^ 2
   \<and> isl (calculate_environmental_scores planar example_roads unreferenced_trees 10)
   \<and> raised_exception (projl (calculate_environmental_scores planar example_roads unreferenced_trees 10))
       = ValueError"
proof -
  note returning = canopy_area_for_every_diameter
    [of example_roads negative_trees planar 10, THEN conjunct2, THEN mp, OF conjI,
     OF example_roads_ok(4,5)]
  note w = Inr_projr2 [OF returning, unfolded negative_trees_ok(1) sum.sel]
  note len = w [THEN conjunct2, THEN conjunct2, THEN conjunct2, THEN conjunct1]
  note col = w [THEN conjunct2, THEN conjunct2, THEN conjunct2, THEN conjunct2, THEN conjunct1,
    THEN mp, OF negative_trees_ok(2)]
  note sum = w [THEN conjunct2, THEN conjunct2, THEN conjunct2, THEN conjunct2, THEN conjunct2,
    rule_format, OF sparse_trees_ok(2), THEN conjunct2, unfolded negative_trees_ok(3)]
  note raising = canopy_area_for_every_diameter
    [of example_roads unreferenced_trees planar 10, THEN conjunct1, THEN mp, OF disjI1,
     OF unreferenced_trees_unset]
  from raising have r:
    "isl (calculate_environmental_scores planar example_roads unreferenced_trees 10)
     \<and> raised_exception (projl (calculate_environmental_scores planar example_roads unreferenced_trees 10))
         = ValueError"
    by auto
  from w have "\<not> isl (calculate_environmental_scores planar example_roads negative_trees 10)"
    by (rule conjunct1)
  moreover from len
  have "length (returned (projr (calculate_environmental_scores planar example_roads negative_trees 10))) = 2"
    by (simp add: example_roads_def)
  moreover from col
  have "trees_canopy_area_sq_m
        (trees_after (projr (calculate_environmental_scores planar example_roads negative_trees 10)))
       = Some [pi * (- 10 / 2) ^ 2]"
    by (simp add: negative_trees_def)
  moreover from sum
  have "canopy_area_sq_m
        (returned (projr (calculate_environmental_scores planar example_roads negative_trees 10)) ! 0)
       = pi * (\<bar>- 10\<bar> / 2) ^ 2"
    by (simp add: negative_trees_def)
  ultimately show ?thesis
    using r by (intro conjI) (erule conjunct1 | erule conjunct2 | assumption)+
qed

subsection \<open>Reference systems\<close>

lemma joined_frame_rows:
  "trees_rows T' = trees_rows T \<Longrightarrow> joined_frame G roads T' d = joined_frame G roads T d"
  by (simp add: joined_frame_def)

lemma merged_frame_rows:
  assumes "trees_rows T' = trees_rows T"
  shows "merged_frame G roads T' d = merged_frame G roads T d"
  unfolding merged_frame_def joined_frame_rows [OF assms] by (rule refl)

lemma returned_determined:
  assumes "calculate_environmental_scores G roads trees d = Inr out"
    and "joined_trees G roads trees = Inr T"
    and "calculate_environmental_scores G roads trees' d = Inr out'"
    and "joined_trees G roads trees' = Inr T"
  shows "returned out = returned out'"
proof -
  from assms(1,2) obtain col where
    col: "align_div (map (\<lambda>(r, a, c, n). a) (merged_frame G roads T d)) (labelled_areas G roads d)
            = Inr col"
    and ret: "returned out = assemble G col (merged_frame G roads T d)"
    by (rule returned_eq)
  from assms(3,4) obtain col' where
    col': "align_div (map (\<lambda>(r, a, c, n). a) (merged_frame G roads T d)) (labelled_areas G roads d)
            = Inr col'"
    and ret': "returned out' = assemble G col' (merged_frame G roads T d)"
    by (rule returned_eq)
  from col col' have "col = col'"
    by simp
  with ret ret' show ?thesis
    by simp
qed

text \<open>
  C7. When the roads frame is in a reference system \<open>X\<close> and the trees frame in another
  system \<open>Y\<close>, the function joins the trees reprojected from \<open>Y\<close> into \<open>X\<close>, prints the
  warning, and returns the frame it returns for the same roads and the trees reprojected
  beforehand. The roads are not reprojected: the caller's roads frame and the geometries
  of the returned rows are those of the input. (The call returns unless the roads index
  has a label twice.)
\<close>

theorem reprojection_equivalence:
  assumes "roads_crs roads = Some X" and "trees_crs trees = Some Y" and "X \<noteq> Y"
    and "distinct (map index_label (roads_rows roads))"
  shows "\<exists>out T out'. calculate_environmental_scores G roads trees d = Inr out
    \<and> to_crs G trees (roads_crs roads) = Inr T
    \<and> calculate_environmental_scores G roads T d = Inr out'
    \<and> returned out = returned out'
    \<and> CrsWarning \<in> set (printed out)
    \<and> joined_trees G roads trees = Inr T
    \<and> trees_crs T = roads_crs roads
    \<and> trees_rows T = map (\<lambda>t. t\<lparr>location := transform G Y X (location t)\<rparr>) (trees_rows trees)
    \<and> roads_after out = roads
    \<and> map geometry (returned out) = map geometry (roads_rows roads)"
proof -
  define T where "T = trees\<lparr>trees_crs := Some X,
      trees_rows := map (\<lambda>t. t\<lparr>location := transform G Y X (location t)\<rparr>) (trees_rows trees)\<rparr>"
  from assms(1,2) have to: "to_crs G trees (roads_crs roads) = Inr T"
    by (simp add: to_crs_def T_def)
  from assms(1,2,3) have ne: "roads_crs roads \<noteq> trees_crs trees"
    by simp
  with to have jt: "joined_trees G roads trees = Inr T"
    by (simp add: joined_trees_def)
  from assms(1) have crs: "trees_crs T = roads_crs roads"
    by (simp add: T_def)
  then have jt': "joined_trees G roads T = Inr T"
    by (simp add: joined_trees_def)
  from assms(1,2) have "\<not> crs_unset_mismatch roads trees"
    by (simp add: crs_unset_mismatch_def)
  from this assms(4) obtain out where out: "calculate_environmental_scores G roads trees d = Inr out"
    by (rule calc_returns)
  from crs have "\<not> crs_unset_mismatch roads T"
    by (simp add: crs_unset_mismatch_def)
  from this assms(4) obtain out' where out': "calculate_environmental_scores G roads T d = Inr out'"
    by (rule calc_returns)
  have "returned out = returned out'"
    using out jt out' jt' by (rule returned_determined)
  moreover from ne have "CrsWarning \<in> set (printed out)"
    by (simp add: returned_effects(1) [OF out])
  moreover have "trees_rows T = map (\<lambda>t. t\<lparr>location := transform G Y X (location t)\<rparr>) (trees_rows trees)"
    by (simp add: T_def)
  ultimately show ?thesis
    using out to out' jt crs returned_effects(2) [OF out] returned_shape(3) [OF out]
    by (intro exI [of _ out] exI [of _ T] exI [of _ out'] conjI)
qed

lemma shifted_trees_ok:
  "roads_crs example_roads = Some 32643"
  "trees_crs shifted_trees = Some 33643"
  "(32643::int) \<noteq> 33643"
  by (simp_all add: example_roads_def shifted_trees_def)

lemma shifted_trees_back:
  "map (\<lambda>t. t\<lparr>location := transform planar 33643 32643 (location t)\<rparr>) (trees_rows shifted_trees)
     = example_tree_rows"
  by (simp add: shifted_trees_def example_tree_rows_def planar_def)

theorem reprojection_equivalence_witness:
  "\<not> isl (calculate_environmental_scores planar example_roads shifted_trees 10)
   \<and> \<not> isl (to_crs planar shifted_trees (roads_crs example_roads))
   \<and> returned (projr (calculate_environmental_scores planar example_roads shifted_trees 10)) =
       returned (projr (calculate_environmental_scores planar example_roads
                  (projr (to_crs planar shifted_trees (roads_crs example_roads))) 10))
   \<and> CrsWarning
       \<in> set (printed (projr (calculate_environmental_scores planar example_roads shifted_trees 10)))
   \<and> trees_rows (projr (to_crs planar shifted_trees (roads_crs example_roads))) = example_tree_rows"
proof -
  from reprojection_equivalence [OF shifted_trees_ok example_roads_ok(5), of planar 10]
  obtain out T out' where
    "calculate_environmental_scores planar example_roads shifted_trees 10 = Inr out"
    "to_crs planar shifted_trees (roads_crs example_roads) = Inr T"
    "calculate_environmental_scores planar example_roads T 10 = Inr out'"
    "returned out = returned out'"
    "CrsWarning \<in> set (printed out)"
    "trees_rows T = map (\<lambda>t. t\<lparr>location := transform planar 33643 32643 (location t)\<rparr>)
                      (trees_rows shifted_trees)"
    by blast
  then show ?thesis
    by (simp add: shifted_trees_back)
qed

subsection \<open>Repeated calls\<close>

lemma second_call_returns:
  assumes "calculate_environmental_scores G roads trees d = Inr out"
  shows "calculate_environmental_scores G (roads_after out) (trees_after out) d = Inr out"
proof (cases "roads_crs roads = trees_crs trees")
  case False
  from assms obtain T where T: "joined_trees G roads trees = Inr T"
    by (rule calc_Inr)
  from False have "trees_after out = trees"
    by (simp add: trees_after_eq [OF assms T])
  with assms show ?thesis
    by (simp add: returned_effects(2) [OF assms])
next
  case True
  define trees2 where
    "trees2 = trees\<lparr>trees_canopy_area_sq_m := Some (map canopy_area (trees_rows trees))\<rparr>"
  from True have T: "joined_trees G roads trees = Inr trees"
    by (rule joined_trees_same_crs)
  from True have after: "trees_after out = trees2" "roads_after out = roads"
    by (simp_all add: trees_after_eq [OF assms T] returned_effects(2) [OF assms] trees2_def)
  have crs2: "roads_crs roads = trees_crs trees2"
    using True by (simp add: trees2_def)
  then have T2: "joined_trees G roads trees2 = Inr trees2"
    by (rule joined_trees_same_crs)
  have rows: "trees_rows trees2 = trees_rows trees"
    by (simp add: trees2_def)
  have upd: "trees2\<lparr>trees_canopy_area_sq_m := Some (map canopy_area (trees_rows trees2))\<rparr> = trees2"
    by (simp add: trees2_def)
  from assms obtain T col where "joined_trees G roads trees = Inr T"
    and "align_div (map (\<lambda>(r, a, c, n). a) (merged_frame G roads T d))
           (labelled_areas G roads d) = Inr col"
    and p: "printed out =
           Performing d # (if roads_crs roads \<noteq> trees_crs trees then [CrsWarning] else [])"
    and "returned out = assemble G col (merged_frame G roads T d)"
    by (rule calc_Inr)
  with T have col: "align_div (map (\<lambda>(r, a, c, n). a) (merged_frame G roads trees d))
           (labelled_areas G roads d) = Inr col"
    and ret: "returned out = assemble G col (merged_frame G roads trees d)"
    by simp_all
  have "calculate_environmental_scores G roads trees2 d =
      Inr \<lparr>printed = [Performing d], roads_after = roads, trees_after = trees2,
           returned = assemble G col (merged_frame G roads trees d)\<rparr>"
    by (simp add: calc_unfold T2 crs2 [symmetric] upd merged_frame_rows [OF rows] col)
  moreover from p ret after True
  have "out = \<lparr>printed = [Performing d], roads_after = roads, trees_after = trees2,
           returned = assemble G col (merged_frame G roads trees d)\<rparr>"
    by (cases out) simp
  ultimately have "calculate_environmental_scores G roads trees2 d = Inr out"
    by simp
  then show ?thesis
    unfolding after .
qed

lemma second_call_raises:
  assumes "calculate_environmental_scores G roads trees d = Inl r"
  shows "calculate_environmental_scores G roads (raised_trees r) d = Inl r"
proof (cases rule: joined_trees_cases [of roads trees G])
  case unset
  from calc_raises_unset [OF unset(1), of G d] assms have "raised_trees r = trees"
    by auto
  with assms show ?thesis
    by simp
next
  case (aligned T)
  have labels: "\<not> distinct (map index_label (roads_rows roads))"
  proof
    assume "distinct (map index_label (roads_rows roads))"
    with aligned(1) have "\<exists>out. calculate_environmental_scores G roads trees d = Inr out"
      by (simp add: calc_returns_iff)
    with assms show False
      by simp
  qed
  note first = calc_raises_labels [OF aligned(2) labels, of d]
  show ?thesis
  proof (cases "roads_crs roads = trees_crs trees")
    case False
    with first assms have "raised_trees r = trees"
      by auto
    with assms show ?thesis
      by simp
  next
    case True
    define trees2 where
      "trees2 = trees\<lparr>trees_canopy_area_sq_m := Some (map canopy_area (trees_rows trees))\<rparr>"
    from True aligned(2) have "T = trees"
      by (simp add: joined_trees_def)
    with first assms True have r: "r = \<lparr>raised_exception = ValueError, raised_printed = [Performing d],
        raised_trees = trees2\<rparr>"
      by (simp add: trees2_def)
    have crs2: "roads_crs roads = trees_crs trees2"
      using True by (simp add: trees2_def)
    then have T2: "joined_trees G roads trees2 = Inr trees2"
      by (rule joined_trees_same_crs)
    have upd: "trees2\<lparr>trees_canopy_area_sq_m := Some (map canopy_area (trees_rows trees2))\<rparr> = trees2"
      by (simp add: trees2_def)
    from calc_raises_labels [OF T2 labels, of d] crs2
    have "calculate_environmental_scores G roads trees2 d = Inl r"
      by (simp add: upd r)
    then show ?thesis
      by (simp add: r)
  qed
qed

text \<open>
  C8. The function has no state of its own; the only thing a call leaves behind is the
  column it may have assigned to the caller's trees frame. A second call on the caller's
  frames as the first call left them, with the same buffer distance, has the outcome of
  the first call: it returns the same frame, prints the same lines and leaves the frames
  as they were; and when the first call raised, the second raises the same exception
  after printing the same lines.
\<close>

theorem second_call_same_result:
  "(\<forall>out. calculate_environmental_scores G roads trees d = Inr out \<longrightarrow>
      calculate_environmental_scores G (roads_after out) (trees_after out) d = Inr out)
   \<and> (\<forall>r. calculate_environmental_scores G roads trees d = Inl r \<longrightarrow>
      calculate_environmental_scores G roads (raised_trees r) d = Inl r)"
  by (intro conjI allI impI) (erule second_call_returns, erule second_call_raises)

theorem second_call_same_result_witness:
  "\<not> isl (calculate_environmental_scores planar example_roads example_trees 10)
   \<and> calculate_environmental_scores planar
       (roads_after (projr (calculate_environmental_scores planar example_roads example_trees 10)))
       (trees_after (projr (calculate_environmental_scores planar example_roads example_trees 10))) 10
     = calculate_environmental_scores planar example_roads example_trees 10
   \<and> isl (calculate_environmental_scores planar example_roads unreferenced_trees 10)
   \<and> calculate_environmental_scores planar example_roads
       (raised_trees (projl (calculate_environmental_scores planar example_roads unreferenced_trees 10))) 10
     = calculate_environmental_scores planar example_roads unreferenced_trees 10"
proof -
  from example_roads_ok(1,5) obtain out where
    out: "calculate_environmental_scores planar example_roads example_trees 10 = Inr out"
    by (rule calc_returns)
  note r = calc_raises_unset [OF unreferenced_trees_unset, of planar 10]
  from second_call_same_result [of planar example_roads example_trees 10, THEN conjunct1,
      rule_format, OF out]
    second_call_same_result [of planar example_roads unreferenced_trees 10, THEN conjunct2,
      rule_format, OF r]
  show ?thesis
    unfolding out r by simp
qed

subsection \<open>The caller's frames\<close>

text \<open>
  C9 fails on the example of the source file: the two frames share a reference system,
  so line 35 assigns the column \<^verbatim>\<open>canopy_area_sq_m\<close> to the caller's trees frame, which
  had no such column. The roads frame is left as it was.
\<close>

theorem trees_input_gains_column:
  "\<not> isl (calculate_environmental_scores planar example_roads example_trees 10)
   \<and> roads_crs example_roads = trees_crs example_trees
   \<and> trees_canopy_area_sq_m example_trees = None
   \<and> trees_canopy_area_sq_m
        (trees_after (projr (calculate_environmental_scores planar example_roads example_trees 10)))
       = Some [pi * 25, pi * 16, pi * 36, pi * (25 / 4)]
   \<and> trees_after (projr (calculate_environmental_scores planar example_roads example_trees 10))
       \<noteq> example_trees
   \<and> roads_after (projr (calculate_environmental_scores planar example_roads example_trees 10))
       = example_roads"
proof -
  from example_roads_ok(1,5) obtain out where
    out: "calculate_environmental_scores planar example_roads example_trees 10 = Inr out"
    by (rule calc_returns)
  have crs: "roads_crs example_roads = trees_crs example_trees"
    by (simp add: example_roads_def example_trees_def)
  then have T: "joined_trees planar example_roads example_trees = Inr example_trees"
    by (rule joined_trees_same_crs)
  have none: "trees_canopy_area_sq_m example_trees = None"
    by (simp add: example_trees_def)
  have col: "trees_canopy_area_sq_m (trees_after out)
      = Some [pi * 25, pi * 16, pi * 36, pi * (25 / 4)]"
    by (simp add: trees_after_eq [OF out T] crs)
       (simp add: example_trees_def example_tree_rows_def canopy_area_def power2_eq_square)
  from none col have "trees_after out \<noteq> example_trees"
    by auto
  with crs none col returned_effects(2) [OF out] show ?thesis
    unfolding out by simp
qed

end
